theory Spec2Isabelle
  imports Main "HOL-Library.Word"
begin

section \<open>The genome package of GEP: a shallow embedding of genome.go\<close>

text \<open>
  The package holds one struct, \<^verbatim>\<open>Genome\<close>, and its methods. A genome points to its
  genes (\<^verbatim>\<open>[]*gene.Gene\<close>), several methods have pointer receivers and write fields of
  the receiver, and the genes are objects of another package that are changed in place.
  The embedding therefore works on an explicit store: a pointer is \<open>Nil\<close> or an address,
  a heap is the list of the objects allocated so far (the address is the position), and
  every method takes the program state and returns the state it leaves behind, together
  with its return value or the panic that ended it.
\<close>

subsection \<open>Pointers, heaps, outcomes\<close>

datatype ptr = Nil | Ptr nat

fun load :: "'a list \<Rightarrow> ptr \<Rightarrow> 'a option" where
  "load h Nil = None"
| "load h (Ptr a) = (if a < length h then Some (h ! a) else None)"

fun store :: "'a list \<Rightarrow> ptr \<Rightarrow> 'a \<Rightarrow> 'a list" where
  "store h Nil x = h"
| "store h (Ptr a) x = h[a := x]"

definition alloc :: "'a list \<Rightarrow> 'a \<Rightarrow> ptr \<times> 'a list" where
  "alloc h x = (Ptr (length h), h @ [x])"

text \<open>
  The ways a call can end without returning: a nil pointer is dereferenced, a slice is
  indexed out of range, \<^verbatim>\<open>rand.Intn\<close> is given a non-positive bound, or
  \<^verbatim>\<open>log.Fatalf\<close> ends the process.
\<close>

datatype error = NilDereference | IndexOutOfRange | IntnInvalidArgument | LogFatal

datatype ('a, 's) result = Return 'a 's | Panic error 's

text \<open>
  What a call does that its caller can observe besides the heaps, in program order: a
  line written by the \<^verbatim>\<open>log\<close> package, a pointer sent on a channel (channels are
  numbered), and a call of a gene's \<^verbatim>\<open>Mutate\<close> at an index of \<^verbatim>\<open>g.Genes\<close>.
  A send that blocks until a reader arrives is not modelled: the send is recorded when the
  statement is executed.
\<close>

datatype event = Log string | Send nat ptr | GeneMutate nat

subsection \<open>The Genome struct and the program state\<close>

text \<open>
  Go's \<^verbatim>\<open>int\<close> is taken at its 64-bit width; \<^verbatim>\<open>+=\<close> on it wraps. A Go map is
  \<open>nil\<close> (\<open>None\<close>) or an allocated table; reading a key that is absent gives the zero value.
  \<^verbatim>\<open>float64\<close> is kept abstract (a type variable with a zero): this package only stores
  and passes floating-point values and performs no arithmetic on them.
\<close>

type_synonym goint = "64 word"
type_synonym symmap = "string \<rightharpoonup> goint"

definition lookup :: "symmap \<Rightarrow> string \<Rightarrow> goint" where
  "lookup m k = (case m k of None \<Rightarrow> 0 | Some v \<Rightarrow> v)"

record 'f Genome =
  Genes :: "ptr list"
  LinkFunc :: string
  Score :: 'f
  SymbolMap :: "symmap option"

record ('g, 'f, 'r) world =
  gene_mem :: "'g list"
  genome_mem :: "'f Genome list"
  rng :: 'r
  events :: "event list"

definition emit :: "event \<Rightarrow> ('g, 'f, 'r) world \<Rightarrow> ('g, 'f, 'r) world" where
  "emit e w = w\<lparr>events := events w @ [e]\<rparr>"

subsection \<open>The collaborators\<close>

text \<open>
  Package \<^verbatim>\<open>gene\<close>, the function registries of package \<^verbatim>\<open>functions\<close> and
  \<^verbatim>\<open>math/rand\<close> are imported by genome.go and are not part of it. They are parameters
  of the embedding. A gene object has a state of type \<open>'g\<close>; each gene method is a
  function of the receiver's state, and the methods that may write to the receiver
  (evaluation, which the comment above \<^verbatim>\<open>SymbolCount\<close> says populates the gene's symbol
  map, forced symbol counting, mutation) return the new state as well. \<^verbatim>\<open>gene.Mutate\<close>
  draws from the global random source, whose state has type \<open>'r\<close>.
\<close>

type_synonym BoolFunction = "bool \<Rightarrow> bool \<Rightarrow> bool \<Rightarrow> bool \<Rightarrow> bool"
type_synonym FuncMap = "string \<rightharpoonup> BoolFunction"

record ('g, 'f, 'r) collaborators =
  gene_EvalBool :: "'g \<Rightarrow> bool list \<Rightarrow> FuncMap \<Rightarrow> bool \<times> 'g"
  gene_EvalMath :: "'g \<Rightarrow> 'f list \<Rightarrow> 'f \<times> 'g"
  gene_SymbolCount :: "'g \<Rightarrow> string \<Rightarrow> goint \<times> 'g"
  gene_SymbolMap :: "'g \<Rightarrow> symmap option"
  gene_Mutate :: "'g \<Rightarrow> 'r \<Rightarrow> 'g \<times> 'r"
  gene_Dup :: "'g \<Rightarrow> 'g"
  gene_String :: "'g \<Rightarrow> string"
  Math :: "string \<rightharpoonup> ('f \<Rightarrow> 'f \<Rightarrow> 'f \<Rightarrow> 'f \<Rightarrow> 'f)"
  rand_draw :: "'r \<Rightarrow> nat \<times> 'r"

text \<open>
  A method call \<^verbatim>\<open>g.Genes[i].M(...)\<close> through a gene pointer: the receiver is loaded,
  the method runs on its state, and the state it leaves is written back. A nil receiver
  panics.
\<close>

definition call_gene ::
  "('g \<Rightarrow> 'a \<times> 'g) \<Rightarrow> ptr \<Rightarrow> ('g, 'f, 'r) world \<Rightarrow> ('a, ('g, 'f, 'r) world) result" where
  "call_gene m p w =
     (case load (gene_mem w) p of
        None \<Rightarrow> Panic NilDereference w
      | Some x \<Rightarrow> (case m x of (a, x') \<Rightarrow> Return a (w\<lparr>gene_mem := store (gene_mem w) p x'\<rparr>)))"

subsection \<open>EvalBool and EvalMath\<close>

text \<open>
  The loop \<^verbatim>\<open>for i := 1; i < len(g.Genes); i++\<close> walks the genes after the first. No gene
  method can write \<^verbatim>\<open>g.Genes\<close>, so the loop is a recursion over the slice as read once.
\<close>

fun EvalBool_loop ::
  "('g, 'f, 'r) collaborators \<Rightarrow> BoolFunction \<Rightarrow> bool list \<Rightarrow> FuncMap \<Rightarrow> ptr list \<Rightarrow> bool \<Rightarrow>
   ('g, 'f, 'r) world \<Rightarrow> (bool, ('g, 'f, 'r) world) result" where
  "EvalBool_loop cs lf inp fm [] result w = Return result w"
| "EvalBool_loop cs lf inp fm (p # ps) result w =
     (case call_gene (\<lambda>x. gene_EvalBool cs x inp fm) p w of
        Panic e w' \<Rightarrow> Panic e w'
      | Return b w' \<Rightarrow> EvalBool_loop cs lf inp fm ps (lf result b False False) w')"

definition EvalBool ::
  "('g, 'f, 'r) collaborators \<Rightarrow> ptr \<Rightarrow> bool list \<Rightarrow> FuncMap \<Rightarrow>
   ('g, 'f, 'r) world \<Rightarrow> (bool, ('g, 'f, 'r) world) result" where
  "EvalBool cs g inp fm w =
     (case load (genome_mem w) g of
        None \<Rightarrow> Panic NilDereference w
      | Some G \<Rightarrow>
          (case fm (LinkFunc G) of
             None \<Rightarrow> Return False (emit (Log (''Unable to find linking function: '' @ LinkFunc G)) w)
           | Some lf \<Rightarrow>
               (case Genes G of
                  [] \<Rightarrow> Panic IndexOutOfRange w
                | p # ps \<Rightarrow>
                    (case call_gene (\<lambda>x. gene_EvalBool cs x inp fm) p w of
                       Panic e w' \<Rightarrow> Panic e w'
                     | Return result w' \<Rightarrow> EvalBool_loop cs lf inp fm ps result w'))))"

fun EvalMath_loop ::
  "('g, 'f::zero, 'r) collaborators \<Rightarrow> ('f \<Rightarrow> 'f \<Rightarrow> 'f \<Rightarrow> 'f \<Rightarrow> 'f) \<Rightarrow> 'f list \<Rightarrow> ptr list \<Rightarrow> 'f \<Rightarrow>
   ('g, 'f, 'r) world \<Rightarrow> ('f, ('g, 'f, 'r) world) result" where
  "EvalMath_loop cs lf inp [] result w = Return result w"
| "EvalMath_loop cs lf inp (p # ps) result w =
     (case call_gene (\<lambda>x. gene_EvalMath cs x inp) p w of
        Panic e w' \<Rightarrow> Panic e w'
      | Return v w' \<Rightarrow> EvalMath_loop cs lf inp ps (lf result v 0 0) w')"

definition EvalMath ::
  "('g, 'f::zero, 'r) collaborators \<Rightarrow> ptr \<Rightarrow> 'f list \<Rightarrow>
   ('g, 'f, 'r) world \<Rightarrow> ('f, ('g, 'f, 'r) world) result" where
  "EvalMath cs g inp w =
     (case load (genome_mem w) g of
        None \<Rightarrow> Panic NilDereference w
      | Some G \<Rightarrow>
          (case Math cs (LinkFunc G) of
             None \<Rightarrow> Return 0 (emit (Log (''Unable to find linking function: '' @ LinkFunc G)) w)
           | Some lf \<Rightarrow>
               (case Genes G of
                  [] \<Rightarrow> Panic IndexOutOfRange w
                | p # ps \<Rightarrow>
                    (case call_gene (\<lambda>x. gene_EvalMath cs x inp) p w of
                       Panic e w' \<Rightarrow> Panic e w'
                     | Return result w' \<Rightarrow> EvalMath_loop cs lf inp ps result w'))))"

subsection \<open>New\<close>

definition New ::
  "ptr list \<Rightarrow> string \<Rightarrow> ('g, 'f::zero, 'r) world \<Rightarrow> (ptr, ('g, 'f, 'r) world) result" where
  "New genes linkFunc w =
     (case alloc (genome_mem w) \<lparr>Genes = genes, LinkFunc = linkFunc, Score = 0, SymbolMap = None\<rparr> of
        (g, mem') \<Rightarrow> Return g (w\<lparr>genome_mem := mem'\<rparr>))"

subsection \<open>merge and SymbolCount\<close>

text \<open>
  A write to a field of the genome behind a pointer that the method has already
  dereferenced.
\<close>

definition update_genome ::
  "ptr \<Rightarrow> ('f Genome \<Rightarrow> 'f Genome) \<Rightarrow> ('g, 'f, 'r) world \<Rightarrow> ('g, 'f, 'r) world" where
  "update_genome g f w =
     (case load (genome_mem w) g of
        None \<Rightarrow> w
      | Some G \<Rightarrow> w\<lparr>genome_mem := store (genome_mem w) g (f G)\<rparr>)"

text \<open>
  \<^verbatim>\<open>merge\<close> ranges over \<^verbatim>\<open>src\<close> and adds each value to the entry of \<^verbatim>\<open>dst\<close> under
  the same key, an absent entry counting as 0. The range visits every key of \<^verbatim>\<open>src\<close>
  once, in an order Go leaves open, and an iteration writes its own key only, so the
  table it leaves is given key by key. \<open>merge_range\<close> is the same loop run over one
  enumeration of the keys; lemma \<open>merge_range_merge\<close> shows that every enumeration gives
  \<open>merge\<close>. A nil \<^verbatim>\<open>src\<close> has no keys. \<^verbatim>\<open>dst\<close> is the table behind the pointer;
  \<^verbatim>\<open>SymbolCount\<close>, the only caller, passes the table it has just made.
\<close>

definition merge :: "symmap \<Rightarrow> symmap option \<Rightarrow> symmap" where
  "merge dst src =
     (case src of
        None \<Rightarrow> dst
      | Some s \<Rightarrow> (\<lambda>k. case s k of None \<Rightarrow> dst k | Some v \<Rightarrow> Some (lookup dst k + v)))"

fun merge_range :: "symmap \<Rightarrow> (string \<times> goint) list \<Rightarrow> symmap" where
  "merge_range dst [] = dst"
| "merge_range dst ((k, v) # kvs) = merge_range (dst(k \<mapsto> lookup dst k + v)) kvs"

fun SymbolCount_loop ::
  "('g, 'f, 'r) collaborators \<Rightarrow> ptr \<Rightarrow> string \<Rightarrow> ptr list \<Rightarrow> symmap \<Rightarrow>
   ('g, 'f, 'r) world \<Rightarrow> (symmap, ('g, 'f, 'r) world) result" where
  "SymbolCount_loop cs g symb [] sm w = Return sm w"
| "SymbolCount_loop cs g symb (p # ps) sm w =
     (case call_gene (\<lambda>x. gene_SymbolCount cs x symb) p w of
        Panic e w' \<Rightarrow> Panic e w'
      | Return n w1 \<Rightarrow>
          (case load (gene_mem w1) p of
             None \<Rightarrow> Panic NilDereference w1
           | Some x \<Rightarrow>
               (let sm' = merge sm (gene_SymbolMap cs x)
                in SymbolCount_loop cs g symb ps sm'
                     (update_genome g (\<lambda>G. G\<lparr>SymbolMap := Some sm'\<rparr>) w1))))"

text \<open>
  \<open>sm\<close> in the loop is the table \<^verbatim>\<open>g.SymbolMap\<close> points to: it is made and seeded before
  the loop and written back to the genome after every merge.
\<close>

definition SymbolCount ::
  "('g, 'f, 'r) collaborators \<Rightarrow> ptr \<Rightarrow> string \<Rightarrow>
   ('g, 'f, 'r) world \<Rightarrow> (goint, ('g, 'f, 'r) world) result" where
  "SymbolCount cs g symb w =
     (case load (genome_mem w) g of
        None \<Rightarrow> Panic NilDereference w
      | Some G \<Rightarrow>
          (case SymbolMap G of
             Some sm \<Rightarrow> Return (lookup sm symb) w
           | None \<Rightarrow>
               (let sm0 = [LinkFunc G \<mapsto> of_nat (length (Genes G)) - 1]
                in case SymbolCount_loop cs g symb (Genes G) sm0
                          (update_genome g (\<lambda>G. G\<lparr>SymbolMap := Some sm0\<rparr>) w) of
                     Panic e w' \<Rightarrow> Panic e w'
                   | Return sm w' \<Rightarrow> Return (lookup sm symb) w')))"

subsection \<open>String\<close>

text \<open>\<^verbatim>\<open>strings.Join\<close> of the standard library.\<close>

fun Join :: "string list \<Rightarrow> string \<Rightarrow> string" where
  "Join [] sep = []"
| "Join [x] sep = x"
| "Join (x # y # ys) sep = x @ sep @ Join (y # ys) sep"

fun String_loop ::
  "('g, 'f, 'r) collaborators \<Rightarrow> ptr list \<Rightarrow> string list \<Rightarrow>
   ('g, 'f, 'r) world \<Rightarrow> (string list, ('g, 'f, 'r) world) result" where
  "String_loop cs [] result w = Return result w"
| "String_loop cs (v # vs) result w =
     (case load (gene_mem w) v of
        None \<Rightarrow> Panic NilDereference w
      | Some x \<Rightarrow> String_loop cs vs (result @ [gene_String cs x]) w)"

text \<open>\<^verbatim>\<open>String\<close> has a value receiver: it works on the struct, not on a pointer to it.\<close>

definition String ::
  "('g, 'f, 'r) collaborators \<Rightarrow> 'f Genome \<Rightarrow>
   ('g, 'f, 'r) world \<Rightarrow> (string, ('g, 'f, 'r) world) result" where
  "String cs G w =
     (case String_loop cs (Genes G) [] w of
        Panic e w' \<Rightarrow> Panic e w'
      | Return result w' \<Rightarrow> Return (Join result (''|'' @ LinkFunc G @ ''|'')) w')"

subsection \<open>Mutate\<close>

text \<open>
  \<^verbatim>\<open>rand.Intn(n)\<close> panics for \<open>n \<le> 0\<close> and otherwise returns a number in \<open>[0, n)\<close>:
  a draw from the random source, reduced into the range.
\<close>

definition Intn ::
  "('g, 'f, 'r) collaborators \<Rightarrow> int \<Rightarrow> ('g, 'f, 'r) world \<Rightarrow> (nat, ('g, 'f, 'r) world) result" where
  "Intn cs n w =
     (if n \<le> 0 then Panic IntnInvalidArgument w
      else (case rand_draw cs (rng w) of (v, r') \<Rightarrow> Return (v mod nat n) (w\<lparr>rng := r'\<rparr>)))"

fun index :: "'a list \<Rightarrow> nat \<Rightarrow> 'a option" where
  "index xs n = (if n < length xs then Some (xs ! n) else None)"

definition call_gene_Mutate ::
  "('g, 'f, 'r) collaborators \<Rightarrow> nat \<Rightarrow> ptr \<Rightarrow>
   ('g, 'f, 'r) world \<Rightarrow> (unit, ('g, 'f, 'r) world) result" where
  "call_gene_Mutate cs n p w =
     (case load (gene_mem w) p of
        None \<Rightarrow> Panic NilDereference w
      | Some x \<Rightarrow>
          (case gene_Mutate cs x (rng w) of
             (x', r') \<Rightarrow>
               Return () (emit (GeneMutate n) (w\<lparr>gene_mem := store (gene_mem w) p x', rng := r'\<rparr>))))"

function Mutate_loop ::
  "('g, 'f, 'r) collaborators \<Rightarrow> ptr \<Rightarrow> int \<Rightarrow> int \<Rightarrow>
   ('g, 'f, 'r) world \<Rightarrow> (unit, ('g, 'f, 'r) world) result" where
  "Mutate_loop cs g i numMutations w =
     (if i < numMutations then
        (case load (genome_mem w) g of
           None \<Rightarrow> Panic NilDereference w
         | Some G \<Rightarrow>
             (case Intn cs (int (length (Genes G))) w of
                Panic e w' \<Rightarrow> Panic e w'
              | Return n w1 \<Rightarrow>
                  (case index (Genes G) n of
                     None \<Rightarrow> Panic IndexOutOfRange w1
                   | Some p \<Rightarrow>
                       (case call_gene_Mutate cs n p w1 of
                          Panic e w' \<Rightarrow> Panic e w'
                        | Return u w2 \<Rightarrow> Mutate_loop cs g (i + 1) numMutations w2))))
      else Return () w)"
  by pat_completeness auto
termination
  by (relation "measure (\<lambda>(cs, g, i, numMutations, w). nat (numMutations - i))") auto

declare Mutate_loop.simps [simp del]

definition Mutate ::
  "('g, 'f, 'r) collaborators \<Rightarrow> ptr \<Rightarrow> int \<Rightarrow>
   ('g, 'f, 'r) world \<Rightarrow> (unit, ('g, 'f, 'r) world) result" where
  "Mutate cs g numMutations w = Mutate_loop cs g 0 numMutations w"

subsection \<open>Dup\<close>

text \<open>
  Modelled from the spec: \<^verbatim>\<open>gene.Dup\<close> is not in genome.go. By the specification it
  returns a deep copy of the receiver: a pointer to a newly allocated gene whose state is
  the copy \<open>gene_Dup\<close> computes. A nil receiver panics.
\<close>

definition call_gene_Dup ::
  "('g, 'f, 'r) collaborators \<Rightarrow> ptr \<Rightarrow> ('g, 'f, 'r) world \<Rightarrow> (ptr, ('g, 'f, 'r) world) result" where
  "call_gene_Dup cs p w =
     (case load (gene_mem w) p of
        None \<Rightarrow> Panic NilDereference w
      | Some x \<Rightarrow>
          (case alloc (gene_mem w) (gene_Dup cs x) of
             (q, mem') \<Rightarrow> Return q (w\<lparr>gene_mem := mem'\<rparr>)))"

fun Dup_loop ::
  "('g, 'f, 'r) collaborators \<Rightarrow> ptr \<Rightarrow> nat \<Rightarrow> ptr list \<Rightarrow>
   ('g, 'f, 'r) world \<Rightarrow> (unit, ('g, 'f, 'r) world) result" where
  "Dup_loop cs dst i [] w = Return () w"
| "Dup_loop cs dst i (p # ps) w =
     (case call_gene_Dup cs p w of
        Panic e w' \<Rightarrow> Panic e w'
      | Return q w1 \<Rightarrow>
          Dup_loop cs dst (Suc i) ps (update_genome dst (\<lambda>D. D\<lparr>Genes := (Genes D)[i := q]\<rparr>) w1))"

definition Dup ::
  "('g, 'f, 'r) collaborators \<Rightarrow> ptr \<Rightarrow> ('g, 'f, 'r) world \<Rightarrow> (ptr, ('g, 'f, 'r) world) result" where
  "Dup cs g w =
     (if g = Nil then
        Return Nil (emit (Log ''denome.Dup error: src and dst must be non-nil'') w)
      else
        (case load (genome_mem w) g of
           None \<Rightarrow> Panic NilDereference w
         | Some G \<Rightarrow>
             (case alloc (genome_mem w)
                     \<lparr>Genes = replicate (length (Genes G)) Nil, LinkFunc = LinkFunc G,
                      Score = Score G, SymbolMap = None\<rparr> of
                (dst, mem') \<Rightarrow>
                  (case Dup_loop cs dst 0 (Genes G) (w\<lparr>genome_mem := mem'\<rparr>) of
                     Panic e w' \<Rightarrow> Panic e w'
                   | Return u w' \<Rightarrow> Return dst w'))))"

subsection \<open>Evaluate\<close>

text \<open>
  A scoring function is Go code that is handed the genome pointer; it may evaluate the
  genome and so change the state. A nil function value is \<open>None\<close>.
\<close>

type_synonym ('g, 'f, 'r) ScoringFunc =
  "ptr \<Rightarrow> ('g, 'f, 'r) world \<Rightarrow> ('f, ('g, 'f, 'r) world) result"

definition Evaluate ::
  "ptr \<Rightarrow> ('g, 'f, 'r) ScoringFunc option \<Rightarrow> nat \<Rightarrow>
   ('g, 'f, 'r) world \<Rightarrow> (unit, ('g, 'f, 'r) world) result" where
  "Evaluate g sf c w =
     (case sf of
        None \<Rightarrow> Panic LogFatal (emit (Log ''genome.Evaluate: ScoringFunc must not be nil'') w)
      | Some f \<Rightarrow>
          (case f g w of
             Panic e w' \<Rightarrow> Panic e w'
           | Return s w1 \<Rightarrow>
               (case load (genome_mem w1) g of
                  None \<Rightarrow> Panic NilDereference w1
                | Some G \<Rightarrow>
                    Return () (emit (Send c g)
                      (w1\<lparr>genome_mem := store (genome_mem w1) g (G\<lparr>Score := s\<rparr>)\<rparr>)))))"

section \<open>Notions used to state the properties\<close>

text \<open>The state in which a call ends, whether it returns or panics.\<close>

fun final_state :: "('a, 's) result \<Rightarrow> 's" where
  "final_state (Return a s) = s"
| "final_state (Panic e s) = s"

definition allocated :: "'a list \<Rightarrow> ptr \<Rightarrow> bool" where
  "allocated h p = (case p of Nil \<Rightarrow> False | Ptr a \<Rightarrow> a < length h)"

text \<open>
  The specification's reading of evaluation: every gene is evaluated once, in the order
  of the slice, and the values are collected; the genome's value is the left fold of the
  linking function over them. \<open>gene_evals\<close> is the first half, for either kind of
  evaluation.
\<close>

fun gene_evals ::
  "('g \<Rightarrow> 'a \<times> 'g) \<Rightarrow> ptr list \<Rightarrow> ('g, 'f, 'r) world \<Rightarrow> ('a list, ('g, 'f, 'r) world) result" where
  "gene_evals m [] w = Return [] w"
| "gene_evals m (p # ps) w =
     (case call_gene m p w of
        Panic e w' \<Rightarrow> Panic e w'
      | Return a w1 \<Rightarrow>
          (case gene_evals m ps w1 of
             Panic e w' \<Rightarrow> Panic e w'
           | Return as w2 \<Rightarrow> Return (a # as) w2))"

text \<open>
  What the gene package is expected to guarantee, where a property of the genome rests on
  it. Evaluating a gene may fill in the gene's caches but does not change what the gene
  evaluates to.
\<close>

definition eval_bool_stable :: "('g, 'f, 'r) collaborators \<Rightarrow> bool list \<Rightarrow> FuncMap \<Rightarrow> bool" where
  "eval_bool_stable cs inp fm \<longleftrightarrow>
     (\<forall>x. fst (gene_EvalBool cs (snd (gene_EvalBool cs x inp fm)) inp fm) =
          fst (gene_EvalBool cs x inp fm))"

definition eval_math_stable :: "('g, 'f, 'r) collaborators \<Rightarrow> 'f list \<Rightarrow> bool" where
  "eval_math_stable cs inp \<longleftrightarrow>
     (\<forall>x. fst (gene_EvalMath cs (snd (gene_EvalMath cs x inp)) inp) =
          fst (gene_EvalMath cs x inp))"

text \<open>
  A gene's own usage count of a symbol: the entry of the gene's symbol map once the
  gene's accounting has been forced (a nil map reads as 0 everywhere).
\<close>

definition forced :: "('g, 'f, 'r) collaborators \<Rightarrow> string \<Rightarrow> 'g \<Rightarrow> 'g" where
  "forced cs symb x = snd (gene_SymbolCount cs x symb)"

definition lookup_map :: "symmap option \<Rightarrow> string \<Rightarrow> goint" where
  "lookup_map m k = (case m of None \<Rightarrow> 0 | Some sm \<Rightarrow> lookup sm k)"

definition gene_usage :: "('g, 'f, 'r) collaborators \<Rightarrow> 'g \<Rightarrow> string \<Rightarrow> goint" where
  "gene_usage cs x symb = lookup_map (gene_SymbolMap cs (forced cs symb x)) symb"

text \<open>Forcing the accounting of a gene that has been forced already leaves its map as it is.\<close>

definition accounting_one_shot :: "('g, 'f, 'r) collaborators \<Rightarrow> string \<Rightarrow> bool" where
  "accounting_one_shot cs symb \<longleftrightarrow>
     (\<forall>x. gene_SymbolMap cs (forced cs symb (forced cs symb x)) =
          gene_SymbolMap cs (forced cs symb x))"

text \<open>The copy of a gene renders as the gene does.\<close>

definition dup_keeps_String :: "('g, 'f, 'r) collaborators \<Rightarrow> bool" where
  "dup_keeps_String cs \<longleftrightarrow> (\<forall>x. gene_String cs (gene_Dup cs x) = gene_String cs x)"

section \<open>A small instance, for the worked examples\<close>

text \<open>
  A gene is its Karva text and a flag that says whether its accounting has been done.
  It evaluates to true exactly when its text is \<open>a.b\<close>, counts its own text once, and is
  mutated by reversing the text. Floating-point values are played by integers, the
  random source by a counter.
\<close>

definition example_cs :: "(string \<times> bool, int, nat) collaborators" where
  "example_cs =
     \<lparr>gene_EvalBool = (\<lambda>x inp fm. (fst x = ''a.b'', (fst x, True))),
      gene_EvalMath = (\<lambda>x inp. (int (length (fst x)), (fst x, True))),
      gene_SymbolCount = (\<lambda>x symb. (if symb = fst x then 1 else 0, (fst x, True))),
      gene_SymbolMap = (\<lambda>x. if snd x then Some [fst x \<mapsto> 1] else None),
      gene_Mutate = (\<lambda>x r. ((rev (fst x), False), r)),
      gene_Dup = (\<lambda>x. x),
      gene_String = fst,
      Math = [''+'' \<mapsto> (\<lambda>a b c d. a + b)],
      rand_draw = (\<lambda>r. (r, Suc r))\<rparr>"

definition example_fm :: FuncMap where
  "example_fm = [''OR'' \<mapsto> (\<lambda>a b c d. a \<or> b), ''+'' \<mapsto> (\<lambda>a b c d. a \<noteq> b)]"

definition example_genome :: "string \<Rightarrow> int Genome" where
  "example_genome lf = \<lparr>Genes = [Ptr 0, Ptr 1], LinkFunc = lf, Score = 0, SymbolMap = None\<rparr>"

definition example_world :: "string \<Rightarrow> (string \<times> bool, int, nat) world" where
  "example_world lf =
     \<lparr>gene_mem = [(''a.b'', False), (''c.d'', False)],
      genome_mem = [example_genome lf],
      rng = 0,
      events = []\<rparr>"

section \<open>Proofs\<close>

subsection \<open>Heaps\<close>

lemma load_None_iff: "load h p = None \<longleftrightarrow> \<not> allocated h p"
  by (cases p) (simp_all add: allocated_def)

lemma load_Some_allocated: "load h p = Some x \<Longrightarrow> allocated h p"
  by (cases p) (simp_all add: allocated_def split: if_splits)

lemma allocated_load: "allocated h p \<Longrightarrow> \<exists>x. load h p = Some x"
  by (cases p) (simp_all add: allocated_def)

lemma allocated_store [simp]: "allocated (store h p x) q = allocated h q"
  by (cases p; cases q) (simp_all add: allocated_def)

lemma length_store [simp]: "length (store h p x) = length h"
  by (cases p) simp_all

lemma load_store_same: "allocated h p \<Longrightarrow> load (store h p x) p = Some x"
  by (cases p) (simp_all add: allocated_def)

lemma load_store_other: "q \<noteq> p \<Longrightarrow> load (store h p x) q = load h q"
  by (cases p; cases q) simp_all

lemma load_append_old: "allocated h p \<Longrightarrow> load (h @ ys) p = load h p"
  by (cases p) (simp_all add: allocated_def nth_append)

subsection \<open>Calling a gene\<close>

lemma call_gene_Return:
  "load (gene_mem w) p = Some x \<Longrightarrow>
   call_gene m p w = Return (fst (m x)) (w\<lparr>gene_mem := store (gene_mem w) p (snd (m x))\<rparr>)"
  by (simp add: call_gene_def split: prod.splits)

lemma call_gene_cases:
  "call_gene m p w = Panic NilDereference w \<and> load (gene_mem w) p = None \<or>
   (\<exists>x. load (gene_mem w) p = Some x \<and>
        call_gene m p w = Return (fst (m x)) (w\<lparr>gene_mem := store (gene_mem w) p (snd (m x))\<rparr>))"
  by (cases "load (gene_mem w) p") (simp_all add: call_gene_def split: prod.splits)

lemma call_gene_genome_mem:
  "genome_mem (final_state (call_gene m p w)) = genome_mem w"
  using call_gene_cases [of m p w] by auto

lemma gene_evals_genome_mem:
  "genome_mem (final_state (gene_evals m ps w)) = genome_mem w"
proof (induction ps arbitrary: w)
  case Nil
  then show ?case by simp
next
  case (Cons p ps)
  consider (panic) "call_gene m p w = Panic NilDereference w"
    | (ret) a w1 where "call_gene m p w = Return a w1" "genome_mem w1 = genome_mem w"
    using call_gene_cases [of m p w] by auto
  then show ?case
  proof cases
    case panic
    then show ?thesis by simp
  next
    case ret
    have "genome_mem (final_state (gene_evals m ps w1)) = genome_mem w"
      using Cons.IH [of w1] ret(2) by simp
    then show ?thesis
      using ret(1) by (cases "gene_evals m ps w1") simp_all
  qed
qed


lemma gene_evals_Return:
  "\<forall>p\<in>set ps. allocated (gene_mem w) p \<Longrightarrow>
   \<exists>bs w'. gene_evals m ps w = Return bs w' \<and> length bs = length ps"
proof (induction ps arbitrary: w)
  case Nil
  then show ?case by simp
next
  case (Cons p ps)
  from Cons.prems obtain x where x: "load (gene_mem w) p = Some x"
    using allocated_load [of "gene_mem w" p] by auto
  let ?w1 = "w\<lparr>gene_mem := store (gene_mem w) p (snd (m x))\<rparr>"
  from Cons.prems have "\<forall>q\<in>set ps. allocated (gene_mem ?w1) q" by simp
  from Cons.IH [OF this] obtain bs w' where
    "gene_evals m ps ?w1 = Return bs w'" "length bs = length ps"
    by blast
  with call_gene_Return [OF x, of m] show ?case by simp
qed

subsection \<open>The evaluation loops are left folds\<close>

lemma EvalBool_loop_fold:
  "EvalBool_loop cs lf inp fm ps r w =
     (case gene_evals (\<lambda>x. gene_EvalBool cs x inp fm) ps w of
        Panic e w' \<Rightarrow> Panic e w'
      | Return bs w' \<Rightarrow> Return (foldl (\<lambda>result b. lf result b False False) r bs) w')"
  by (induction ps arbitrary: r w) (auto split: result.splits)

lemma EvalMath_loop_fold:
  "EvalMath_loop cs lf inp ps r w =
     (case gene_evals (\<lambda>x. gene_EvalMath cs x inp) ps w of
        Panic e w' \<Rightarrow> Panic e w'
      | Return vs w' \<Rightarrow> Return (foldl (\<lambda>result v. lf result v 0 0) r vs) w')"
  by (induction ps arbitrary: r w) (auto split: result.splits)

lemma EvalBool_fold:
  assumes "load (genome_mem w) g = Some G" and "fm (LinkFunc G) = Some lf" and "Genes G \<noteq> []"
  shows "EvalBool cs g inp fm w =
     (case gene_evals (\<lambda>x. gene_EvalBool cs x inp fm) (Genes G) w of
        Panic e w' \<Rightarrow> Panic e w'
      | Return bs w' \<Rightarrow> Return (foldl (\<lambda>result b. lf result b False False) (hd bs) (tl bs)) w')"
proof -
  from assms(3) obtain p ps where "Genes G = p # ps" by (cases "Genes G") auto
  then show ?thesis
    using assms(1,2) by (simp add: EvalBool_def EvalBool_loop_fold split: result.splits)
qed

lemma EvalMath_fold:
  assumes "load (genome_mem w) g = Some G" and "Math cs (LinkFunc G) = Some lf" and "Genes G \<noteq> []"
  shows "EvalMath cs g inp w =
     (case gene_evals (\<lambda>x. gene_EvalMath cs x inp) (Genes G) w of
        Panic e w' \<Rightarrow> Panic e w'
      | Return vs w' \<Rightarrow> Return (foldl (\<lambda>result v. lf result v 0 0) (hd vs) (tl vs)) w')"
proof -
  from assms(3) obtain p ps where "Genes G = p # ps" by (cases "Genes G") auto
  then show ?thesis
    using assms(1,2) by (simp add: EvalMath_def EvalMath_loop_fold split: result.splits)
qed

text \<open>
  Claim C1. For a genome with at least one gene, all of them allocated, whose link function
  resolves in the registry, \<^verbatim>\<open>EvalBool\<close> evaluates the genes once each in slice order
  and returns the left fold of the link function over the values, starting from the value
  of gene 0 and passing \<open>False\<close>, \<open>False\<close> as the trailing arguments; \<^verbatim>\<open>EvalMath\<close>
  does the same with the numeric registry and trailing arguments 0, 0.
\<close>

theorem Eval_folds_genes_left_to_right:
  assumes "load (genome_mem w) g = Some G"
    and "Genes G \<noteq> []"
    and "\<forall>p\<in>set (Genes G). allocated (gene_mem w) p"
  shows "(\<forall>lf. fm (LinkFunc G) = Some lf \<longrightarrow>
            (\<exists>bs w'. gene_evals (\<lambda>x. gene_EvalBool cs x inp fm) (Genes G) w = Return bs w' \<and>
                      length bs = length (Genes G) \<and>
                      EvalBool cs g inp fm w =
                        Return (foldl (\<lambda>result b. lf result b False False) (hd bs) (tl bs)) w')) \<and>
         (\<forall>lf. Math cs (LinkFunc G) = Some lf \<longrightarrow>
            (\<exists>vs w'. gene_evals (\<lambda>x. gene_EvalMath cs x minp) (Genes G) w = Return vs w' \<and>
                      length vs = length (Genes G) \<and>
                      EvalMath cs g minp w =
                        Return (foldl (\<lambda>result v. lf result v 0 0) (hd vs) (tl vs)) w'))"
proof (intro conjI allI impI)
  fix lf assume lf: "fm (LinkFunc G) = Some lf"
  obtain bs w' where e: "gene_evals (\<lambda>x. gene_EvalBool cs x inp fm) (Genes G) w = Return bs w'"
    and l: "length bs = length (Genes G)"
    using gene_evals_Return [OF assms(3)] by blast
  show "\<exists>bs w'. gene_evals (\<lambda>x. gene_EvalBool cs x inp fm) (Genes G) w = Return bs w' \<and>
          length bs = length (Genes G) \<and>
          EvalBool cs g inp fm w =
            Return (foldl (\<lambda>result b. lf result b False False) (hd bs) (tl bs)) w'"
    using EvalBool_fold [where fm = fm and lf = lf, OF assms(1) lf assms(2)] e l by simp
next
  fix lf assume lf: "Math cs (LinkFunc G) = Some lf"
  obtain vs w' where e: "gene_evals (\<lambda>x. gene_EvalMath cs x minp) (Genes G) w = Return vs w'"
    and l: "length vs = length (Genes G)"
    using gene_evals_Return [OF assms(3)] by blast
  show "\<exists>vs w'. gene_evals (\<lambda>x. gene_EvalMath cs x minp) (Genes G) w = Return vs w' \<and>
          length vs = length (Genes G) \<and>
          EvalMath cs g minp w =
            Return (foldl (\<lambda>result v. lf result v 0 0) (hd vs) (tl vs)) w'"
    using EvalMath_fold [where cs = cs and lf = lf, OF assms(1) lf assms(2)] e l by simp
qed


subsection \<open>Unfolding the worked examples\<close>

lemmas example_defs = example_cs_def example_fm_def example_world_def example_genome_def

theorem Eval_folds_genes_left_to_right_witness:
  "load (genome_mem (example_world ''+'')) (Ptr 0) = Some (example_genome ''+'') \<and>
   Genes (example_genome ''+'') \<noteq> [] \<and>
   allocated (gene_mem (example_world ''+'')) (Ptr 0) \<and>
   allocated (gene_mem (example_world ''+'')) (Ptr 1) \<and>
   example_fm (LinkFunc (example_genome ''+'')) \<noteq> None \<and>
   Math example_cs (LinkFunc (example_genome ''+'')) \<noteq> None \<and>
   EvalBool example_cs (Ptr 0) [] example_fm (example_world ''+'') =
     Return True ((example_world ''+'')\<lparr>gene_mem := [(''a.b'', True), (''c.d'', True)]\<rparr>) \<and>
   EvalMath example_cs (Ptr 0) [] (example_world ''+'') =
     Return 6 ((example_world ''+'')\<lparr>gene_mem := [(''a.b'', True), (''c.d'', True)]\<rparr>)"
proof -
  have h1: "load (genome_mem (example_world ''+'')) (Ptr 0) = Some (example_genome ''+'')"
    by (simp add: example_defs)
  have h2: "Genes (example_genome ''+'') \<noteq> []"
    by (simp add: example_defs)
  have h3: "\<forall>p\<in>set (Genes (example_genome ''+'')). allocated (gene_mem (example_world ''+'')) p"
    by (simp add: example_defs allocated_def)
  have b: "gene_evals (\<lambda>x. gene_EvalBool example_cs x [] example_fm) (Genes (example_genome ''+''))
             (example_world ''+'') =
           Return [True, False] ((example_world ''+'')\<lparr>gene_mem := [(''a.b'', True), (''c.d'', True)]\<rparr>)"
    by (simp add: example_defs call_gene_def)
  have m: "gene_evals (\<lambda>x. gene_EvalMath example_cs x []) (Genes (example_genome ''+''))
             (example_world ''+'') =
           Return [3, 3] ((example_world ''+'')\<lparr>gene_mem := [(''a.b'', True), (''c.d'', True)]\<rparr>)"
    by (simp add: example_defs call_gene_def)
  show ?thesis
    using Eval_folds_genes_left_to_right [OF h1 h2 h3, of example_fm example_cs "[]" "[]"] h1 h2
    unfolding b m
    by (simp add: example_defs allocated_def)
qed

subsection \<open>An unresolved link function\<close>

text \<open>
  Claim C4. When the link function of an existing genome is not in the boolean registry,
  \<^verbatim>\<open>EvalBool\<close> writes one log line and returns \<open>False\<close>; when it is not in the numeric
  registry, \<^verbatim>\<open>EvalMath\<close> writes one log line and returns 0. Both calls return: neither
  panics, and nothing but the log changes.
\<close>

theorem unresolved_link_function_degrades:
  assumes "load (genome_mem w) g = Some G"
  shows "(fm (LinkFunc G) = None \<longrightarrow>
            EvalBool cs g inp fm w =
              Return False (w\<lparr>events := events w @
                [Log (''Unable to find linking function: '' @ LinkFunc G)]\<rparr>)) \<and>
         (Math cs (LinkFunc G) = None \<longrightarrow>
            EvalMath cs g minp w =
              Return 0 (w\<lparr>events := events w @
                [Log (''Unable to find linking function: '' @ LinkFunc G)]\<rparr>))"
  using assms by (simp add: EvalBool_def EvalMath_def emit_def)

theorem unresolved_link_function_degrades_witness:
  "load (genome_mem (example_world ''XOR'')) (Ptr 0) = Some (example_genome ''XOR'') \<and>
   example_fm (LinkFunc (example_genome ''XOR'')) = None \<and>
   Math example_cs (LinkFunc (example_genome ''XOR'')) = None \<and>
   EvalBool example_cs (Ptr 0) [True] example_fm (example_world ''XOR'') =
     Return False ((example_world ''XOR'')\<lparr>events :=
       [Log ''Unable to find linking function: XOR'']\<rparr>) \<and>
   EvalMath example_cs (Ptr 0) [1] (example_world ''XOR'') =
     Return 0 ((example_world ''XOR'')\<lparr>events :=
       [Log ''Unable to find linking function: XOR'']\<rparr>)"
proof -
  have h: "load (genome_mem (example_world ''XOR'')) (Ptr 0) = Some (example_genome ''XOR'')"
    by (simp add: example_defs)
  have f: "example_fm (LinkFunc (example_genome ''XOR'')) = None"
    by (simp add: example_defs)
  have m: "Math example_cs (LinkFunc (example_genome ''XOR'')) = None"
    by (simp add: example_defs)
  have l: "LinkFunc (example_genome ''XOR'') = ''XOR''" "events (example_world ''XOR'') = []"
    by (simp_all add: example_defs)
  show ?thesis
    using unresolved_link_function_degrades [OF h, of example_fm example_cs "[True]" "[1]"] h f m l
    by simp
qed

subsection \<open>Evaluation twice in a row\<close>

lemma gene_evals_simulation:
  assumes st: "\<forall>x. fst (m (snd (m x))) = fst (m x)"
  shows "list_all2 (\<lambda>x y. fst (m x) = fst (m y)) (gene_mem w) (gene_mem u) \<Longrightarrow>
         gene_evals m ps w = Return bs w1 \<Longrightarrow>
         \<exists>u1. gene_evals m ps u = Return bs u1 \<and>
              list_all2 (\<lambda>x y. fst (m x) = fst (m y)) (gene_mem w1) (gene_mem u1)"
proof (induction ps arbitrary: w u bs w1)
  case Nil
  then show ?case by auto
next
  case (Cons p ps)
  let ?R = "\<lambda>x y. fst (m x) = fst (m y)"
  from Cons.prems(2) obtain x where x: "load (gene_mem w) p = Some x"
    using call_gene_cases [of m p w] by auto
  then obtain a where a: "p = Ptr a" "a < length (gene_mem w)" "x = gene_mem w ! a"
    by (cases p) (auto split: if_splits)
  have len: "length (gene_mem u) = length (gene_mem w)"
    using Cons.prems(1) by (simp add: list_all2_lengthD)
  let ?y = "gene_mem u ! a"
  have y: "load (gene_mem u) p = Some ?y" using a len by simp
  have xy: "fst (m x) = fst (m ?y)"
    using list_all2_nthD [OF Cons.prems(1) a(2)] a(3) by simp
  let ?w' = "w\<lparr>gene_mem := store (gene_mem w) p (snd (m x))\<rparr>"
  let ?u' = "u\<lparr>gene_mem := store (gene_mem u) p (snd (m ?y))\<rparr>"
  have cw: "call_gene m p w = Return (fst (m x)) ?w'" by (rule call_gene_Return [OF x])
  have cu: "call_gene m p u = Return (fst (m x)) ?u'" using call_gene_Return [OF y, of m] xy by simp
  from Cons.prems(2) cw obtain bs' where
    bs': "gene_evals m ps ?w' = Return bs' w1" "bs = fst (m x) # bs'"
    by (auto split: result.splits)
  have "?R (snd (m x)) (snd (m ?y))" using st xy by simp
  then have "list_all2 ?R (gene_mem ?w') (gene_mem ?u')"
    using Cons.prems(1) a(1) by (simp add: list_all2_update_cong)
  from Cons.IH [OF this bs'(1)] obtain u1 where
    "gene_evals m ps ?u' = Return bs' u1" "list_all2 ?R (gene_mem w1) (gene_mem u1)"
    by blast
  with cu bs'(2) show ?case by simp
qed

lemma gene_evals_keeps_values:
  assumes st: "\<forall>x. fst (m (snd (m x))) = fst (m x)"
  shows "gene_evals m ps w = Return bs w1 \<Longrightarrow>
         list_all2 (\<lambda>x y. fst (m x) = fst (m y)) (gene_mem w) (gene_mem w1)"
proof (induction ps arbitrary: w bs)
  case Nil
  then show ?case by (simp add: list_all2_refl)
next
  case (Cons p ps)
  let ?R = "\<lambda>x y. fst (m x) = fst (m y)"
  from Cons.prems obtain x where x: "load (gene_mem w) p = Some x"
    using call_gene_cases [of m p w] by auto
  then obtain a where a: "p = Ptr a" "a < length (gene_mem w)" "x = gene_mem w ! a"
    by (cases p) (auto split: if_splits)
  let ?w' = "w\<lparr>gene_mem := store (gene_mem w) p (snd (m x))\<rparr>"
  have cw: "call_gene m p w = Return (fst (m x)) ?w'" by (rule call_gene_Return [OF x])
  from Cons.prems cw obtain bs' where bs': "gene_evals m ps ?w' = Return bs' w1"
    by (auto split: result.splits)
  have "?R (gene_mem w ! a) (snd (m x))" using st a(3) by simp
  then have 1: "list_all2 ?R (gene_mem w) (gene_mem ?w')"
    using a(1,2) by (auto simp add: list_all2_conv_all_nth nth_list_update)
  have 2: "list_all2 ?R (gene_mem ?w') (gene_mem w1)" by (rule Cons.IH [OF bs'])
  show ?case
    by (rule list_all2_trans [OF _ 1 2]) simp
qed

lemma gene_evals_again:
  assumes "\<forall>x. fst (m (snd (m x))) = fst (m x)" and "gene_evals m ps w = Return bs w1"
  shows "\<exists>w2. gene_evals m ps w1 = Return bs w2"
  using gene_evals_simulation [OF assms(1) gene_evals_keeps_values [OF assms] assms(2)]
  by blast


lemma EvalBool_genome_mem:
  "genome_mem (final_state (EvalBool cs g inp fm w)) = genome_mem w"
proof (cases "load (genome_mem w) g")
  case None
  then show ?thesis by (simp add: EvalBool_def)
next
  case (Some G)
  show ?thesis
  proof (cases "fm (LinkFunc G)")
    case None
    with Some show ?thesis by (simp add: EvalBool_def emit_def)
  next
    case lf: (Some lf)
    show ?thesis
    proof (cases "Genes G = []")
      case True
      with Some lf show ?thesis by (simp add: EvalBool_def)
    next
      case False
      show ?thesis
        using gene_evals_genome_mem [of "\<lambda>x. gene_EvalBool cs x inp fm" "Genes G" w]
        by (cases "gene_evals (\<lambda>x. gene_EvalBool cs x inp fm) (Genes G) w")
          (simp_all add: EvalBool_fold [where fm = fm, OF Some lf False])
    qed
  qed
qed

lemma EvalMath_genome_mem:
  "genome_mem (final_state (EvalMath cs g inp w)) = genome_mem w"
proof (cases "load (genome_mem w) g")
  case None
  then show ?thesis by (simp add: EvalMath_def)
next
  case (Some G)
  show ?thesis
  proof (cases "Math cs (LinkFunc G)")
    case None
    with Some show ?thesis by (simp add: EvalMath_def emit_def)
  next
    case lf: (Some lf)
    show ?thesis
    proof (cases "Genes G = []")
      case True
      with Some lf show ?thesis by (simp add: EvalMath_def)
    next
      case False
      show ?thesis
        using gene_evals_genome_mem [of "\<lambda>x. gene_EvalMath cs x inp" "Genes G" w]
        by (cases "gene_evals (\<lambda>x. gene_EvalMath cs x inp) (Genes G) w")
          (simp_all add: EvalMath_fold [where cs = cs, OF Some lf False])
    qed
  qed
qed

lemma EvalBool_again:
  assumes st: "eval_bool_stable cs inp fm" and r: "EvalBool cs g inp fm w = Return v w1"
  shows "\<exists>w2. EvalBool cs g inp fm w1 = Return v w2"
proof -
  from r obtain G where G: "load (genome_mem w) g = Some G"
    by (cases "load (genome_mem w) g") (simp_all add: EvalBool_def)
  have "genome_mem w1 = genome_mem w"
    using EvalBool_genome_mem [of cs g inp fm w] r by simp
  with G have G1: "load (genome_mem w1) g = Some G" by simp
  show ?thesis
  proof (cases "fm (LinkFunc G)")
    case None
    with G G1 r show ?thesis by (simp add: EvalBool_def)
  next
    case (Some lf)
    from r G Some have ne: "Genes G \<noteq> []" by (auto simp: EvalBool_def)
    let ?m = "\<lambda>x. gene_EvalBool cs x inp fm"
    from r obtain bs where bs: "gene_evals ?m (Genes G) w = Return bs w1"
      and v: "v = foldl (\<lambda>result b. lf result b False False) (hd bs) (tl bs)"
      by (auto simp: EvalBool_fold [where fm = fm, OF G Some ne] split: result.splits)
    have "\<forall>x. fst (?m (snd (?m x))) = fst (?m x)"
      using st by (simp add: eval_bool_stable_def)
    from gene_evals_again [OF this bs] obtain w2 where "gene_evals ?m (Genes G) w1 = Return bs w2" ..
    then show ?thesis by (simp add: EvalBool_fold [where fm = fm, OF G1 Some ne] v)
  qed
qed

lemma EvalMath_again:
  assumes st: "eval_math_stable cs inp" and r: "EvalMath cs g inp w = Return v w1"
  shows "\<exists>w2. EvalMath cs g inp w1 = Return v w2"
proof -
  from r obtain G where G: "load (genome_mem w) g = Some G"
    by (cases "load (genome_mem w) g") (simp_all add: EvalMath_def)
  have "genome_mem w1 = genome_mem w"
    using EvalMath_genome_mem [of cs g inp w] r by simp
  with G have G1: "load (genome_mem w1) g = Some G" by simp
  show ?thesis
  proof (cases "Math cs (LinkFunc G)")
    case None
    with G G1 r show ?thesis by (simp add: EvalMath_def)
  next
    case (Some lf)
    from r G Some have ne: "Genes G \<noteq> []" by (auto simp: EvalMath_def)
    let ?m = "\<lambda>x. gene_EvalMath cs x inp"
    from r obtain vs where vs: "gene_evals ?m (Genes G) w = Return vs w1"
      and v: "v = foldl (\<lambda>result v. lf result v 0 0) (hd vs) (tl vs)"
      by (auto simp: EvalMath_fold [where cs = cs, OF G Some ne] split: result.splits)
    have "\<forall>x. fst (?m (snd (?m x))) = fst (?m x)"
      using st by (simp add: eval_math_stable_def)
    from gene_evals_again [OF this vs] obtain w2 where "gene_evals ?m (Genes G) w1 = Return vs w2" ..
    then show ?thesis by (simp add: EvalMath_fold [where cs = cs, OF G1 Some ne] v)
  qed
qed

text \<open>
  Claim C9. However \<^verbatim>\<open>EvalBool\<close> or \<^verbatim>\<open>EvalMath\<close> ends, no genome has been written: the
  genes slice, the link function and the score of every genome are as before. When a gene's
  value does not depend on the caches its own evaluation fills, a call that returned \<open>v\<close>
  is followed, on the same inputs and registry, by a call that returns \<open>v\<close> again.
\<close>

theorem Eval_leaves_genome_and_repeats:
  "genome_mem (final_state (EvalBool cs g inp fm w)) = genome_mem w \<and>
   genome_mem (final_state (EvalMath cs g minp w)) = genome_mem w \<and>
   (eval_bool_stable cs inp fm \<longrightarrow>
      (\<forall>v w1. EvalBool cs g inp fm w = Return v w1 \<longrightarrow>
         (\<exists>w2. EvalBool cs g inp fm w1 = Return v w2))) \<and>
   (eval_math_stable cs minp \<longrightarrow>
      (\<forall>v w1. EvalMath cs g minp w = Return v w1 \<longrightarrow>
         (\<exists>w2. EvalMath cs g minp w1 = Return v w2)))"
  using EvalBool_genome_mem [of cs g inp fm w] EvalMath_genome_mem [of cs g minp w]
    EvalBool_again [of cs inp fm g w] EvalMath_again [of cs minp g w]
  by blast

theorem Eval_leaves_genome_and_repeats_witness:
  "eval_bool_stable example_cs [] example_fm \<and>
   eval_math_stable example_cs [] \<and>
   EvalBool example_cs (Ptr 0) [] example_fm (example_world ''+'') =
     Return True ((example_world ''+'')\<lparr>gene_mem := [(''a.b'', True), (''c.d'', True)]\<rparr>) \<and>
   EvalMath example_cs (Ptr 0) [] (example_world ''+'') =
     Return 6 ((example_world ''+'')\<lparr>gene_mem := [(''a.b'', True), (''c.d'', True)]\<rparr>) \<and>
   (\<exists>w2. EvalBool example_cs (Ptr 0) [] example_fm
           ((example_world ''+'')\<lparr>gene_mem := [(''a.b'', True), (''c.d'', True)]\<rparr>) =
         Return True w2) \<and>
   (\<exists>w2. EvalMath example_cs (Ptr 0) []
           ((example_world ''+'')\<lparr>gene_mem := [(''a.b'', True), (''c.d'', True)]\<rparr>) =
         Return 6 w2)"
proof -
  have sb: "eval_bool_stable example_cs [] example_fm"
    by (simp add: eval_bool_stable_def example_cs_def)
  have sm: "eval_math_stable example_cs []"
    by (simp add: eval_math_stable_def example_cs_def)
  have b: "EvalBool example_cs (Ptr 0) [] example_fm (example_world ''+'') =
     Return True ((example_world ''+'')\<lparr>gene_mem := [(''a.b'', True), (''c.d'', True)]\<rparr>)"
    by (simp add: EvalBool_def example_defs call_gene_def)
  have m: "EvalMath example_cs (Ptr 0) [] (example_world ''+'') =
     Return 6 ((example_world ''+'')\<lparr>gene_mem := [(''a.b'', True), (''c.d'', True)]\<rparr>)"
    by (simp add: EvalMath_def example_defs call_gene_def)
  show ?thesis
    using Eval_leaves_genome_and_repeats
      [of example_cs "Ptr 0" "[]" example_fm "example_world ''+''" "[]"] sb sm b m
    by blast
qed

subsection \<open>merge\<close>

lemma lookup_merge: "lookup (merge dst src) k = lookup dst k + lookup_map src k"
  by (simp add: merge_def lookup_def lookup_map_def split: option.splits)

lemma merge_range_merge:
  "distinct (map fst kvs) \<Longrightarrow> merge_range dst kvs = merge dst (Some (map_of kvs))"
proof (induction kvs arbitrary: dst)
  case Nil
  show ?case by (simp add: merge_def)
next
  case (Cons kv kvs)
  obtain k v where kv: "kv = (k, v)" by (cases kv)
  from Cons.prems kv have k: "map_of kvs k = None" and d: "distinct (map fst kvs)"
    by (simp_all add: map_of_eq_None_iff)
  have "merge_range dst (kv # kvs) = merge_range (dst(k \<mapsto> lookup dst k + v)) kvs"
    by (simp add: kv)
  also have "\<dots> = merge (dst(k \<mapsto> lookup dst k + v)) (Some (map_of kvs))"
    by (rule Cons.IH [OF d])
  also have "\<dots> = merge dst (Some (map_of (kv # kvs)))"
    using k kv by (auto simp: merge_def lookup_def fun_eq_iff split: option.splits)
  finally show ?case .
qed

subsection \<open>Writing a genome field\<close>

lemma update_genome_simps [simp]:
  "gene_mem (update_genome g f w) = gene_mem w"
  "events (update_genome g f w) = events w"
  "rng (update_genome g f w) = rng w"
  "length (genome_mem (update_genome g f w)) = length (genome_mem w)"
  by (simp_all add: update_genome_def split: option.splits)

lemma load_update_genome_same:
  "load (genome_mem w) g = Some G \<Longrightarrow> load (genome_mem (update_genome g f w)) g = Some (f G)"
  by (simp add: update_genome_def load_store_same load_Some_allocated)

lemma load_update_genome_other:
  "g' \<noteq> g \<Longrightarrow> load (genome_mem (update_genome g f w)) g' = load (genome_mem w) g'"
  by (simp add: update_genome_def load_store_other split: option.splits)

subsection \<open>SymbolCount\<close>

lemma SymbolCount_loop_cached:
  "SymbolCount_loop cs g symb ps sm w = Return sm' w' \<Longrightarrow>
   load (genome_mem w) g = Some G \<Longrightarrow> SymbolMap G = Some sm \<Longrightarrow>
   \<exists>G'. load (genome_mem w') g = Some G' \<and> SymbolMap G' = Some sm'"
proof (induction ps arbitrary: sm w G)
  case Nil
  then show ?case by simp
next
  case (Cons p ps)
  let ?m = "\<lambda>x. gene_SymbolCount cs x symb"
  from Cons.prems(1) obtain x where x: "load (gene_mem w) p = Some x"
    using call_gene_cases [of ?m p w] by auto
  let ?w1 = "w\<lparr>gene_mem := store (gene_mem w) p (snd (?m x))\<rparr>"
  have c: "call_gene ?m p w = Return (fst (?m x)) ?w1" by (rule call_gene_Return [OF x])
  have x1: "load (gene_mem ?w1) p = Some (snd (?m x))"
    using x by (simp add: load_store_same load_Some_allocated)
  let ?sm = "merge sm (gene_SymbolMap cs (snd (?m x)))"
  let ?w2 = "update_genome g (\<lambda>G. G\<lparr>SymbolMap := Some ?sm\<rparr>) ?w1"
  from Cons.prems(1) c x1 have r: "SymbolCount_loop cs g symb ps ?sm ?w2 = Return sm' w'"
    by (simp add: Let_def)
  have "load (genome_mem ?w1) g = Some G" using Cons.prems(2) by simp
  then have "load (genome_mem ?w2) g = Some (G\<lparr>SymbolMap := Some ?sm\<rparr>)"
    by (rule load_update_genome_same)
  from Cons.IH [OF r this] show ?case by simp
qed

lemma forced_usage_store:
  assumes "accounting_one_shot cs symb" and "load h p = Some x"
  shows "gene_SymbolMap cs (forced cs symb (the (load (store h p (forced cs symb x)) q))) =
         gene_SymbolMap cs (forced cs symb (the (load h q)))"
proof (cases "q = p")
  case True
  then show ?thesis
    using assms by (simp add: load_store_same load_Some_allocated accounting_one_shot_def)
next
  case False
  then show ?thesis by (simp add: load_store_other)
qed

lemma SymbolCount_loop_sum:
  assumes os: "accounting_one_shot cs symb"
  shows "\<forall>p\<in>set ps. allocated (gene_mem w) p \<Longrightarrow>
     \<exists>sm' w'. SymbolCount_loop cs g symb ps sm w = Return sm' w' \<and>
       (\<forall>k. lookup sm' k = lookup sm k +
          sum_list (map (\<lambda>p. lookup_map
            (gene_SymbolMap cs (forced cs symb (the (load (gene_mem w) p)))) k) ps))"
proof (induction ps arbitrary: sm w)
  case Nil
  then show ?case by simp
next
  case (Cons p ps)
  let ?m = "\<lambda>x. gene_SymbolCount cs x symb"
  from Cons.prems obtain x where x: "load (gene_mem w) p = Some x"
    using allocated_load [of "gene_mem w" p] by auto
  let ?w1 = "w\<lparr>gene_mem := store (gene_mem w) p (snd (?m x))\<rparr>"
  have c: "call_gene ?m p w = Return (fst (?m x)) ?w1" by (rule call_gene_Return [OF x])
  have x1: "load (gene_mem ?w1) p = Some (snd (?m x))"
    using x by (simp add: load_store_same load_Some_allocated)
  let ?sm = "merge sm (gene_SymbolMap cs (snd (?m x)))"
  let ?w2 = "update_genome g (\<lambda>G. G\<lparr>SymbolMap := Some ?sm\<rparr>) ?w1"
  have step: "SymbolCount_loop cs g symb (p # ps) sm w = SymbolCount_loop cs g symb ps ?sm ?w2"
    using c x1 by (simp add: Let_def)
  have mem2: "gene_mem ?w2 = store (gene_mem w) p (forced cs symb x)"
    by (simp add: forced_def)
  from Cons.prems have "\<forall>q\<in>set ps. allocated (gene_mem ?w2) q" by simp
  from Cons.IH [OF this, of ?sm] obtain sm' w' where
    r: "SymbolCount_loop cs g symb ps ?sm ?w2 = Return sm' w'"
    and s: "\<forall>k. lookup sm' k = lookup ?sm k +
          sum_list (map (\<lambda>p. lookup_map
            (gene_SymbolMap cs (forced cs symb (the (load (gene_mem ?w2) p)))) k) ps)"
    by blast
  have f: "\<forall>k. lookup sm' k = lookup sm k +
          sum_list (map (\<lambda>p. lookup_map
            (gene_SymbolMap cs (forced cs symb (the (load (gene_mem w) p)))) k) (p # ps))"
    using s x unfolding mem2 forced_usage_store [OF os x]
    by (simp add: lookup_merge forced_def add.assoc)
  show ?case
    unfolding step by (rule exI [of _ sm'], rule exI [of _ w'], rule conjI [OF r f])
qed


lemma map_the_load:
  "map (load h) ps = map Some xs \<Longrightarrow> map (\<lambda>p. f (the (load h p))) ps = map f xs"
proof -
  assume a: "map (load h) ps = map Some xs"
  have "map (\<lambda>p. f (the (load h p))) ps = map (\<lambda>y. f (the y)) (map (load h) ps)"
    by (simp add: comp_def)
  also have "\<dots> = map f xs" unfolding a by (simp add: comp_def)
  finally show ?thesis .
qed

lemma map_load_allocated:
  "map (load h) ps = map Some xs \<Longrightarrow> \<forall>p\<in>set ps. allocated h p"
proof
  fix p assume a: "map (load h) ps = map Some xs" and p: "p \<in> set ps"
  then have "load h p \<in> set (map Some xs)" by (metis image_eqI set_map)
  then obtain x where "load h p = Some x" by auto
  then show "allocated h p" by (rule load_Some_allocated)
qed

lemma sum_list_all_zero:
  "\<forall>x\<in>set xs. f x = (0::goint) \<Longrightarrow> sum_list (map f xs) = 0"
  by (induction xs) simp_all

lemma sum_list_goint_sint:
  "(sum_list (map f xs) :: goint) = word_of_int (sum_list (map (\<lambda>x. sint (f x)) xs))"
  by (induction xs) simp_all

lemma sint_word_of_int_in_range:
  "- (2 ^ 63) \<le> k \<Longrightarrow> k < 2 ^ 63 \<Longrightarrow> sint (word_of_int k :: goint) = k"
proof -
  assume k: "- (2 ^ 63) \<le> k" "k < 2 ^ 63"
  have "sint (word_of_int k :: goint) = signed_take_bit (LENGTH(64) - 1) k"
    by (rule sint_sbintrunc')
  also have "\<dots> = k" using k by (simp add: signed_take_bit_int_eq_self)
  finally show ?thesis .
qed

lemma count_as_integer:
  fixes xs :: "'g list"
  assumes "- (2 ^ 63) \<le> (if b then int n - 1 else 0) + sum_list (map (\<lambda>x. sint (f x)) xs)"
    and "(if b then int n - 1 else 0) + sum_list (map (\<lambda>x. sint (f x)) xs) < 2 ^ 63"
  shows "sint ((if b then of_nat n - 1 else 0) + sum_list (map f xs) :: goint) =
         (if b then int n - 1 else 0) + sum_list (map (\<lambda>x. sint (f x)) xs)"
proof -
  have "((if b then of_nat n - 1 else 0) + sum_list (map f xs) :: goint) =
        word_of_int ((if b then int n - 1 else 0) + sum_list (map (\<lambda>x. sint (f x)) xs))"
    unfolding sum_list_goint_sint [of f xs] by simp
  then show ?thesis using sint_word_of_int_in_range [OF assms] by simp
qed

lemma SymbolCount_first:
  assumes G: "load (genome_mem w) g = Some G" and first: "SymbolMap G = None"
    and xs: "map (load (gene_mem w)) (Genes G) = map Some xs"
    and os: "accounting_one_shot cs symb"
  shows "\<exists>w'. SymbolCount cs g symb w =
           Return ((if symb = LinkFunc G then of_nat (length (Genes G)) - 1 else 0) +
                   sum_list (map (\<lambda>x. gene_usage cs x symb) xs)) w'"
proof -
  let ?sm0 = "[LinkFunc G \<mapsto> of_nat (length (Genes G)) - 1] :: symmap"
  let ?w0 = "update_genome g (\<lambda>G. G\<lparr>SymbolMap := Some ?sm0\<rparr>) w"
  have "\<forall>p\<in>set (Genes G). allocated (gene_mem ?w0) p"
    using map_load_allocated [OF xs] by simp
  from SymbolCount_loop_sum [OF os this, of g ?sm0] obtain sm' w' where
    r: "SymbolCount_loop cs g symb (Genes G) ?sm0 ?w0 = Return sm' w'"
    and s: "\<forall>k. lookup sm' k = lookup ?sm0 k +
          sum_list (map (\<lambda>p. lookup_map
            (gene_SymbolMap cs (forced cs symb (the (load (gene_mem ?w0) p)))) k) (Genes G))"
    by blast
  have "map (\<lambda>p. lookup_map (gene_SymbolMap cs (forced cs symb (the (load (gene_mem w) p)))) symb)
          (Genes G) = map (\<lambda>x. gene_usage cs x symb) xs"
    unfolding gene_usage_def by (rule map_the_load [OF xs])
  with s have "lookup sm' symb = lookup ?sm0 symb + sum_list (map (\<lambda>x. gene_usage cs x symb) xs)"
    by simp
  moreover have "lookup ?sm0 symb = (if symb = LinkFunc G then of_nat (length (Genes G)) - 1 else 0)"
    by (simp add: lookup_def)
  moreover have "SymbolCount cs g symb w = Return (lookup sm' symb) w'"
    using G first r by (simp add: SymbolCount_def)
  ultimately show ?thesis by simp
qed

text \<open>
  Claim C2. On the first call (the genome's map is still nil) on a genome whose gene
  pointers are all allocated, \<^verbatim>\<open>SymbolCount(s)\<close> returns \<open>N - 1\<close> if \<open>s\<close> is the link
  function and 0 otherwise, plus the sum over the genes, position by position, of the
  gene's own usage count of \<open>s\<close>, in Go's integer arithmetic. The gene package is assumed
  to leave the map of a gene whose accounting has been forced as it is when it is forced
  again. When no gene uses the link function's symbol, the count of the link function is
  \<open>N - 1\<close>. Read as signed integers, the result is the integer sum whenever that sum is
  in the range of \<^verbatim>\<open>int\<close>.
\<close>

theorem SymbolCount_first_call_sums:
  assumes "load (genome_mem w) g = Some G" and "SymbolMap G = None"
    and "map (load (gene_mem w)) (Genes G) = map Some xs"
    and "accounting_one_shot cs symb"
  shows "(\<exists>w'. SymbolCount cs g symb w =
            Return ((if symb = LinkFunc G then of_nat (length (Genes G)) - 1 else 0) +
                    sum_list (map (\<lambda>x. gene_usage cs x symb) xs)) w') \<and>
         (symb = LinkFunc G \<and> (\<forall>x\<in>set xs. gene_usage cs x symb = 0) \<longrightarrow>
            (\<exists>w'. SymbolCount cs g symb w = Return (of_nat (length (Genes G)) - 1) w')) \<and>
         (- (2 ^ 63) \<le> (if symb = LinkFunc G then int (length (Genes G)) - 1 else 0) +
                         sum_list (map (\<lambda>x. sint (gene_usage cs x symb)) xs) \<and>
          (if symb = LinkFunc G then int (length (Genes G)) - 1 else 0) +
            sum_list (map (\<lambda>x. sint (gene_usage cs x symb)) xs) < 2 ^ 63 \<longrightarrow>
            (\<exists>v w'. SymbolCount cs g symb w = Return v w' \<and>
               sint v = (if symb = LinkFunc G then int (length (Genes G)) - 1 else 0) +
                        sum_list (map (\<lambda>x. sint (gene_usage cs x symb)) xs)))"
proof (intro conjI impI)
  show 1: "\<exists>w'. SymbolCount cs g symb w =
            Return ((if symb = LinkFunc G then of_nat (length (Genes G)) - 1 else 0) +
                    sum_list (map (\<lambda>x. gene_usage cs x symb) xs)) w'"
    by (rule SymbolCount_first [OF assms])
  show "\<exists>w'. SymbolCount cs g symb w = Return (of_nat (length (Genes G)) - 1) w'"
    if "symb = LinkFunc G \<and> (\<forall>x\<in>set xs. gene_usage cs x symb = 0)"
  proof -
    from that have z: "\<forall>x\<in>set xs. gene_usage cs x symb = 0" by blast
    have "sum_list (map (\<lambda>x. gene_usage cs x symb) xs) = 0"
      by (rule sum_list_all_zero [OF z])
    with 1 that show ?thesis by simp
  qed
  show "\<exists>v w'. SymbolCount cs g symb w = Return v w' \<and>
               sint v = (if symb = LinkFunc G then int (length (Genes G)) - 1 else 0) +
                        sum_list (map (\<lambda>x. sint (gene_usage cs x symb)) xs)"
    if r: "- (2 ^ 63) \<le> (if symb = LinkFunc G then int (length (Genes G)) - 1 else 0) +
                         sum_list (map (\<lambda>x. sint (gene_usage cs x symb)) xs) \<and>
          (if symb = LinkFunc G then int (length (Genes G)) - 1 else 0) +
            sum_list (map (\<lambda>x. sint (gene_usage cs x symb)) xs) < 2 ^ 63"
  proof -
    from 1 obtain w' where w': "SymbolCount cs g symb w =
            Return ((if symb = LinkFunc G then of_nat (length (Genes G)) - 1 else 0) +
                    sum_list (map (\<lambda>x. gene_usage cs x symb) xs)) w'" ..
    have "sint ((if symb = LinkFunc G then of_nat (length (Genes G)) - 1 else 0) +
                sum_list (map (\<lambda>x. gene_usage cs x symb) xs) :: goint) =
          (if symb = LinkFunc G then int (length (Genes G)) - 1 else 0) +
          sum_list (map (\<lambda>x. sint (gene_usage cs x symb)) xs)"
      by (rule count_as_integer [OF r [THEN conjunct1] r [THEN conjunct2]])
    with w' show ?thesis by blast
  qed
qed

theorem SymbolCount_first_call_sums_witness:
  "load (genome_mem (example_world ''+'')) (Ptr 0) = Some (example_genome ''+'') \<and>
   SymbolMap (example_genome ''+'') = None \<and>
   map (load (gene_mem (example_world ''+''))) (Genes (example_genome ''+'')) =
     map Some [(''a.b'', False), (''c.d'', False)] \<and>
   accounting_one_shot example_cs ''+'' \<and>
   ''+'' = LinkFunc (example_genome ''+'') \<and>
   gene_usage example_cs (''a.b'', False) ''+'' = 0 \<and>
   gene_usage example_cs (''c.d'', False) ''+'' = 0 \<and>
   (if ''+'' = LinkFunc (example_genome ''+'')
    then int (length (Genes (example_genome ''+''))) - 1 else 0) +
     sum_list (map (\<lambda>x. sint (gene_usage example_cs x ''+''))
       [(''a.b'', False), (''c.d'', False)]) = 1 \<and>
   (\<exists>w'. SymbolCount example_cs (Ptr 0) ''+'' (example_world ''+'') = Return 1 w') \<and>
   (\<exists>v w'. SymbolCount example_cs (Ptr 0) ''+'' (example_world ''+'') = Return v w' \<and>
      sint v = 1)"
proof -
  have h1: "load (genome_mem (example_world ''+'')) (Ptr 0) = Some (example_genome ''+'')"
    by (simp add: example_defs)
  have h2: "SymbolMap (example_genome ''+'') = None"
    by (simp add: example_defs)
  have h3: "map (load (gene_mem (example_world ''+''))) (Genes (example_genome ''+'')) =
     map Some [(''a.b'', False), (''c.d'', False)]"
    by (simp add: example_defs)
  have h4: "accounting_one_shot example_cs ''+''"
    by (simp add: accounting_one_shot_def forced_def example_cs_def)
  have u: "gene_usage example_cs (''a.b'', False) ''+'' = 0"
    "gene_usage example_cs (''c.d'', False) ''+'' = 0"
    by (simp_all add: gene_usage_def forced_def lookup_map_def lookup_def example_cs_def)
  have l: "LinkFunc (example_genome ''+'') = ''+''" "length (Genes (example_genome ''+'')) = 2"
    by (simp_all add: example_defs)
  show ?thesis
    using SymbolCount_first_call_sums [OF h1 h2 h3 h4] h1 h2 h3 h4 u l
    by simp
qed

text \<open>
  Claim C3. After a call of \<^verbatim>\<open>SymbolCount\<close> has returned, the genome carries a
  symbol map, and in every later state in which the genome still carries that map,
  whatever has happened in between to the gene objects, to the genes slice, to the link
  function or to the score, \<^verbatim>\<open>SymbolCount\<close> with the same symbol returns the same
  value and leaves the state exactly as it found it: nothing is recomputed.
\<close>

theorem SymbolCount_memoized_once:
  assumes "SymbolCount cs g symb w = Return v w1"
  shows "\<exists>G1 sm. load (genome_mem w1) g = Some G1 \<and> SymbolMap G1 = Some sm \<and>
           (\<forall>w2 G2. load (genome_mem w2) g = Some G2 \<and> SymbolMap G2 = Some sm \<longrightarrow>
              SymbolCount cs g symb w2 = Return v w2)"
proof -
  from assms obtain G where G: "load (genome_mem w) g = Some G"
    by (cases "load (genome_mem w) g") (simp_all add: SymbolCount_def)
  have "\<exists>G1 sm. load (genome_mem w1) g = Some G1 \<and> SymbolMap G1 = Some sm \<and> v = lookup sm symb"
  proof (cases "SymbolMap G")
    case (Some sm)
    with assms G show ?thesis by (simp add: SymbolCount_def)
  next
    case None
    let ?sm0 = "[LinkFunc G \<mapsto> of_nat (length (Genes G)) - 1] :: symmap"
    let ?w0 = "update_genome g (\<lambda>G. G\<lparr>SymbolMap := Some ?sm0\<rparr>) w"
    from assms G None obtain sm' where
      r: "SymbolCount_loop cs g symb (Genes G) ?sm0 ?w0 = Return sm' w1" and v: "v = lookup sm' symb"
      by (auto simp: SymbolCount_def Let_def split: result.splits)
    have "load (genome_mem ?w0) g = Some (G\<lparr>SymbolMap := Some ?sm0\<rparr>)"
      by (rule load_update_genome_same [OF G])
    from SymbolCount_loop_cached [OF r this] v show ?thesis by auto
  qed
  then obtain G1 sm where 1: "load (genome_mem w1) g = Some G1" "SymbolMap G1 = Some sm"
    and v: "v = lookup sm symb" by blast
  have "\<forall>w2 G2. load (genome_mem w2) g = Some G2 \<and> SymbolMap G2 = Some sm \<longrightarrow>
          SymbolCount cs g symb w2 = Return v w2"
    by (simp add: SymbolCount_def v)
  with 1 show ?thesis by blast
qed

theorem SymbolCount_memoized_once_witness:
  "\<exists>w1. SymbolCount example_cs (Ptr 0) ''a.b'' (example_world ''+'') = Return 1 w1 \<and>
        SymbolCount example_cs (Ptr 0) ''a.b''
          (w1\<lparr>gene_mem := [(''b.a'', False), (''d.c'', False)]\<rparr>) =
        Return 1 (w1\<lparr>gene_mem := [(''b.a'', False), (''d.c'', False)]\<rparr>)"
proof -
  have "\<exists>w1. SymbolCount example_cs (Ptr 0) ''a.b'' (example_world ''+'') = Return 1 w1"
    by (simp add: SymbolCount_def Let_def example_defs call_gene_def update_genome_def merge_def lookup_def)
  then obtain w1 where f: "SymbolCount example_cs (Ptr 0) ''a.b'' (example_world ''+'') = Return 1 w1" ..
  from SymbolCount_memoized_once [OF f] obtain G1 sm where
    c: "load (genome_mem w1) (Ptr 0) = Some G1" "SymbolMap G1 = Some sm"
    and a: "\<forall>w2 G2. load (genome_mem w2) (Ptr 0) = Some G2 \<and> SymbolMap G2 = Some sm \<longrightarrow>
              SymbolCount example_cs (Ptr 0) ''a.b'' w2 = Return 1 w2"
    by blast
  let ?w2 = "w1\<lparr>gene_mem := [(''b.a'', False), (''d.c'', False)]\<rparr>"
  have "load (genome_mem ?w2) (Ptr 0) = Some G1" using c(1) by simp
  with a c(2) have "SymbolCount example_cs (Ptr 0) ''a.b'' ?w2 = Return 1 ?w2" by blast
  with f show ?thesis by blast
qed

subsection \<open>String\<close>

lemma String_loop_renders:
  "map (load (gene_mem w)) vs = map Some xs \<Longrightarrow>
   String_loop cs vs result w = Return (result @ map (gene_String cs) xs) w"
proof (induction vs arbitrary: xs result)
  case Nil
  then show ?case by simp
next
  case (Cons v vs)
  from Cons.prems obtain x xs' where xs: "xs = x # xs'" "load (gene_mem w) v = Some x"
    "map (load (gene_mem w)) vs = map Some xs'"
    by (cases xs) auto
  show ?case
    using Cons.IH [OF xs(3), of "result @ [gene_String cs x]"] xs(1,2) by simp
qed

lemma String_renders:
  "map (load (gene_mem w)) (Genes G) = map Some xs \<Longrightarrow>
   String cs G w = Return (Join (map (gene_String cs) xs) (''|'' @ LinkFunc G @ ''|'')) w"
  by (simp add: String_def String_loop_renders [where xs = xs])

lemma Join_Cons: "Join (x # xs) sep = x @ concat (map (\<lambda>y. sep @ y) xs)"
  by (induction xs arbitrary: x) simp_all

text \<open>
  Claim C8. For a genome value whose gene pointers are allocated, \<^verbatim>\<open>String\<close> returns the
  renderings of the genes, in order, joined with \<open>|\<close> link function \<open>|\<close>: the first
  rendering followed, for every further gene, by the separator and that gene's rendering.
  The state is returned as it was (nothing is cached), so every call renders the genes as
  they are at that moment. Two genes rendering \<open>a.b\<close> and \<open>c.d\<close> under the link function
  \<open>OR\<close> give \<open>a.b|OR|c.d\<close>.
\<close>

theorem String_joins_gene_renderings:
  "(map (load (gene_mem w)) (Genes G) = map Some xs \<longrightarrow>
      String cs G w = Return (Join (map (gene_String cs) xs) (''|'' @ LinkFunc G @ ''|'')) w) \<and>
   (map (load (gene_mem w)) (Genes G) = map Some (x # xs') \<longrightarrow>
      String cs G w =
        Return (gene_String cs x @
                concat (map (\<lambda>y. (''|'' @ LinkFunc G @ ''|'') @ gene_String cs y) xs')) w) \<and>
   (map (load (gene_mem w)) (Genes G) = [Some x0, Some x1] \<and>
    gene_String cs x0 = ''a.b'' \<and> gene_String cs x1 = ''c.d'' \<and> LinkFunc G = ''OR'' \<longrightarrow>
      String cs G w = Return ''a.b|OR|c.d'' w)"
proof (intro conjI impI)
  show "String cs G w = Return (Join (map (gene_String cs) xs) (''|'' @ LinkFunc G @ ''|'')) w"
    if "map (load (gene_mem w)) (Genes G) = map Some xs"
    using that by (rule String_renders)
  show "String cs G w =
        Return (gene_String cs x @
                concat (map (\<lambda>y. (''|'' @ LinkFunc G @ ''|'') @ gene_String cs y) xs')) w"
    if "map (load (gene_mem w)) (Genes G) = map Some (x # xs')"
    using String_renders [OF that, of cs] by (simp only: list.map Join_Cons map_map comp_def)
  show "String cs G w = Return ''a.b|OR|c.d'' w"
    if "map (load (gene_mem w)) (Genes G) = [Some x0, Some x1] \<and>
        gene_String cs x0 = ''a.b'' \<and> gene_String cs x1 = ''c.d'' \<and> LinkFunc G = ''OR''"
  proof -
    from that have "map (load (gene_mem w)) (Genes G) = map Some [x0, x1]" by simp
    from String_renders [OF this, of cs] that show ?thesis by simp
  qed
qed

theorem String_joins_gene_renderings_witness:
  "map (load (gene_mem (example_world ''OR''))) (Genes (example_genome ''OR'')) =
     map Some [(''a.b'', False), (''c.d'', False)] \<and>
   gene_String example_cs (''a.b'', False) = ''a.b'' \<and>
   gene_String example_cs (''c.d'', False) = ''c.d'' \<and>
   LinkFunc (example_genome ''OR'') = ''OR'' \<and>
   String example_cs (example_genome ''OR'') (example_world ''OR'') =
     Return ''a.b|OR|c.d'' (example_world ''OR'')"
proof -
  have h: "map (load (gene_mem (example_world ''OR''))) (Genes (example_genome ''OR'')) =
     map Some [(''a.b'', False), (''c.d'', False)]"
    by (simp add: example_defs)
  have r: "gene_String example_cs (''a.b'', False) = ''a.b''"
    "gene_String example_cs (''c.d'', False) = ''c.d''"
    "LinkFunc (example_genome ''OR'') = ''OR''"
    by (simp_all add: example_defs)
  show ?thesis
    using String_joins_gene_renderings
      [of "example_world ''OR''" "example_genome ''OR''" "[(''a.b'', False), (''c.d'', False)]"
          example_cs "(''a.b'', False)" "[(''c.d'', False)]" "(''a.b'', False)" "(''c.d'', False)"]
      h r
    by simp
qed

subsection \<open>Evaluate\<close>

text \<open>
  Claim C5. With a nil scoring function \<^verbatim>\<open>Evaluate\<close> ends the process through
  \<^verbatim>\<open>log.Fatalf\<close>: the only thing it has done is to write the log line, so nothing has
  been sent. With a scoring function that returns \<open>s\<close> for the genome, \<^verbatim>\<open>Evaluate\<close>
  returns, the genome behind the pointer has score \<open>s\<close> and is otherwise as the scoring
  function left it, and the one thing done after scoring is a single send of that same
  pointer on the channel.
\<close>

theorem Evaluate_scores_then_sends:
  "Evaluate g None c w =
     Panic LogFatal (w\<lparr>events := events w @
       [Log ''genome.Evaluate: ScoringFunc must not be nil'']\<rparr>) \<and>
   (sf g w = Return s w1 \<and> load (genome_mem w1) g = Some G1 \<longrightarrow>
      Evaluate g (Some sf) c w =
        Return () (w1\<lparr>genome_mem := store (genome_mem w1) g (G1\<lparr>Score := s\<rparr>),
                      events := events w1 @ [Send c g]\<rparr>) \<and>
      load (store (genome_mem w1) g (G1\<lparr>Score := s\<rparr>)) g = Some (G1\<lparr>Score := s\<rparr>) \<and>
      (\<forall>g'. g' \<noteq> g \<longrightarrow>
         load (store (genome_mem w1) g (G1\<lparr>Score := s\<rparr>)) g' = load (genome_mem w1) g'))"
  by (auto simp: Evaluate_def emit_def load_store_same load_Some_allocated load_store_other)

theorem Evaluate_scores_then_sends_witness:
  "Return (750::int) (example_world ''OR'') = Return 750 (example_world ''OR'') \<and>
   load (genome_mem (example_world ''OR'')) (Ptr 0) = Some (example_genome ''OR'') \<and>
   Evaluate (Ptr 0) (Some (\<lambda>g w. Return 750 w)) 7 (example_world ''OR'') =
     Return () ((example_world ''OR'')
       \<lparr>genome_mem := [(example_genome ''OR'')\<lparr>Score := 750\<rparr>], events := [Send 7 (Ptr 0)]\<rparr>) \<and>
   Evaluate (Ptr 0) None 7 (example_world ''OR'') =
     Panic LogFatal ((example_world ''OR'')
       \<lparr>events := [Log ''genome.Evaluate: ScoringFunc must not be nil'']\<rparr>)"
proof -
  have h: "load (genome_mem (example_world ''OR'')) (Ptr 0) = Some (example_genome ''OR'')"
    by (simp add: example_defs)
  have e: "events (example_world ''OR'') = []"
    "store (genome_mem (example_world ''OR'')) (Ptr 0) ((example_genome ''OR'')\<lparr>Score := 750\<rparr>) =
       [(example_genome ''OR'')\<lparr>Score := 750\<rparr>]"
    by (simp_all add: example_defs)
  show ?thesis
    using Evaluate_scores_then_sends
      [of "Ptr 0" 7 "example_world ''OR''" "\<lambda>g w. Return 750 w" 750 "example_world ''OR''"
          "example_genome ''OR''"] h e
    by simp
qed

subsection \<open>Mutate\<close>

lemma Intn_Return:
  "0 < n \<Longrightarrow> \<exists>v w'. Intn cs n w = Return v w' \<and> v < nat n \<and>
     gene_mem w' = gene_mem w \<and> genome_mem w' = genome_mem w \<and> events w' = events w"
  by (simp add: Intn_def split: prod.splits)

lemma Intn_frame:
  "Intn cs n w = Return v w' \<Longrightarrow>
     gene_mem w' = gene_mem w \<and> genome_mem w' = genome_mem w \<and> events w' = events w"
  by (auto simp: Intn_def split: if_splits prod.splits)

lemma call_gene_Mutate_Return:
  "allocated (gene_mem w) p \<Longrightarrow>
   \<exists>w'. call_gene_Mutate cs n p w = Return () w' \<and> events w' = events w @ [GeneMutate n] \<and>
     genome_mem w' = genome_mem w \<and> length (gene_mem w') = length (gene_mem w)"
  using allocated_load [of "gene_mem w" p]
  by (auto simp: call_gene_Mutate_def emit_def split: prod.splits)

lemma call_gene_Mutate_frame:
  "call_gene_Mutate cs n p w = Return u w' \<Longrightarrow>
   genome_mem w' = genome_mem w \<and> length (gene_mem w') = length (gene_mem w) \<and>
   (\<forall>q. q \<noteq> p \<longrightarrow> load (gene_mem w') q = load (gene_mem w) q)"
  by (auto simp: call_gene_Mutate_def emit_def load_store_other split: option.splits prod.splits)

lemma Mutate_loop_done: "numMutations \<le> i \<Longrightarrow> Mutate_loop cs g i numMutations w = Return () w"
  by (simp add: Mutate_loop.simps)

lemma Mutate_loop_calls:
  assumes G: "load (genome_mem w) g = Some G" and ne: "Genes G \<noteq> []"
    and al: "\<forall>p\<in>set (Genes G). allocated (gene_mem w) p"
  shows "\<exists>w' idxs. Mutate_loop cs g i k w = Return () w' \<and>
           events w' = events w @ map GeneMutate idxs \<and>
           length idxs = nat (k - i) \<and>
           (\<forall>n\<in>set idxs. n < length (Genes G)) \<and>
           genome_mem w' = genome_mem w \<and>
           length (gene_mem w') = length (gene_mem w)"
  using G al
proof (induction "nat (k - i)" arbitrary: i w)
  case 0
  then have "k \<le> i" by simp
  then have "Mutate_loop cs g i k w = Return () w" by (rule Mutate_loop_done)
  with 0 show ?case by simp
next
  case (Suc j)
  then have lt: "i < k" and j: "j = nat (k - (i + 1))" by linarith+
  from ne have "0 < int (length (Genes G))" by simp
  from Intn_Return [OF this, of cs w] obtain n w1 where
    n: "Intn cs (int (length (Genes G))) w = Return n w1" "n < length (Genes G)"
    and f1: "gene_mem w1 = gene_mem w" "genome_mem w1 = genome_mem w" "events w1 = events w"
    by auto
  let ?p = "Genes G ! n"
  have "allocated (gene_mem w1) ?p" using Suc.prems(2) n(2) f1(1) by simp
  from call_gene_Mutate_Return [OF this, of cs n] obtain w2 where
    c: "call_gene_Mutate cs n ?p w1 = Return () w2"
    and f2: "events w2 = events w1 @ [GeneMutate n]" "genome_mem w2 = genome_mem w1"
      "length (gene_mem w2) = length (gene_mem w1)"
    by blast
  have step: "Mutate_loop cs g i k w = Mutate_loop cs g (i + 1) k w2"
    using lt Suc.prems(1) n c by (subst Mutate_loop.simps) simp
  have G2: "load (genome_mem w2) g = Some G" using Suc.prems(1) f1 f2 by simp
  have al2: "\<forall>p\<in>set (Genes G). allocated (gene_mem w2) p"
    using Suc.prems(2) f1(1) f2(3) by (auto simp: allocated_def split: ptr.splits)
  from Suc.hyps(1) [OF j G2 al2] obtain w' idxs where
    r: "Mutate_loop cs g (i + 1) k w2 = Return () w'"
      "events w' = events w2 @ map GeneMutate idxs"
      "length idxs = nat (k - (i + 1))"
      "\<forall>n\<in>set idxs. n < length (Genes G)"
      "genome_mem w' = genome_mem w2"
      "length (gene_mem w') = length (gene_mem w2)"
    by blast
  have "Mutate_loop cs g i k w = Return () w' \<and>
        events w' = events w @ map GeneMutate (n # idxs) \<and>
        length (n # idxs) = nat (k - i) \<and>
        (\<forall>m\<in>set (n # idxs). m < length (Genes G)) \<and>
        genome_mem w' = genome_mem w \<and>
        length (gene_mem w') = length (gene_mem w)"
    using step r f1 f2 n(2) j Suc.hyps(2) by simp
  then show ?case by blast
qed


text \<open>
  Claim C7. \<^verbatim>\<open>Mutate(k)\<close> with \<open>k \<le> 0\<close> returns at once and changes nothing. With
  \<open>k \<ge> 1\<close>, on a genome with at least one gene and all gene pointers allocated, it returns
  after exactly \<open>k\<close> calls of a gene's \<^verbatim>\<open>Mutate\<close>, each at an index below
  \<^verbatim>\<open>len(g.Genes)\<close>; no genome is written, so the genes slice keeps its length and stays
  non-empty, and no gene is allocated or freed.
\<close>

theorem Mutate_issues_k_gene_mutations:
  "(k \<le> 0 \<longrightarrow> Mutate cs g k w = Return () w) \<and>
   (1 \<le> k \<and> load (genome_mem w) g = Some G \<and> Genes G \<noteq> [] \<and>
    (\<forall>p\<in>set (Genes G). allocated (gene_mem w) p) \<longrightarrow>
      (\<exists>w' idxs. Mutate cs g k w = Return () w' \<and>
         events w' = events w @ map GeneMutate idxs \<and>
         length idxs = nat k \<and>
         (\<forall>n\<in>set idxs. n < length (Genes G)) \<and>
         genome_mem w' = genome_mem w \<and>
         length (gene_mem w') = length (gene_mem w)))"
proof (intro conjI impI)
  show "Mutate cs g k w = Return () w" if "k \<le> 0"
    using that by (simp add: Mutate_def Mutate_loop_done)
  show "\<exists>w' idxs. Mutate cs g k w = Return () w' \<and>
         events w' = events w @ map GeneMutate idxs \<and>
         length idxs = nat k \<and>
         (\<forall>n\<in>set idxs. n < length (Genes G)) \<and>
         genome_mem w' = genome_mem w \<and>
         length (gene_mem w') = length (gene_mem w)"
    if h: "1 \<le> k \<and> load (genome_mem w) g = Some G \<and> Genes G \<noteq> [] \<and>
        (\<forall>p\<in>set (Genes G). allocated (gene_mem w) p)"
  proof -
    from h have G: "load (genome_mem w) g = Some G" and ne: "Genes G \<noteq> []"
      and al: "\<forall>p\<in>set (Genes G). allocated (gene_mem w) p" by blast+
    show ?thesis
      using Mutate_loop_calls [OF G ne al, of cs 0 k] by (simp add: Mutate_def)
  qed
qed

theorem Mutate_issues_k_gene_mutations_witness:
  "Mutate example_cs (Ptr 0) (- 2) (example_world ''OR'') = Return () (example_world ''OR'') \<and>
   load (genome_mem (example_world ''OR'')) (Ptr 0) = Some (example_genome ''OR'') \<and>
   Genes (example_genome ''OR'') \<noteq> [] \<and>
   allocated (gene_mem (example_world ''OR'')) (Ptr 0) \<and>
   allocated (gene_mem (example_world ''OR'')) (Ptr 1) \<and>
   Mutate example_cs (Ptr 0) 3 (example_world ''OR'') =
     Return () ((example_world ''OR'')
       \<lparr>gene_mem := [(''a.b'', False), (''d.c'', False)], rng := 3,
        events := [GeneMutate 0, GeneMutate 1, GeneMutate 0]\<rparr>) \<and>
   (\<exists>w' idxs. Mutate example_cs (Ptr 0) 3 (example_world ''OR'') = Return () w' \<and>
      events w' = map GeneMutate idxs \<and> length idxs = 3 \<and>
      genome_mem w' = genome_mem (example_world ''OR''))"
proof -
  have h: "load (genome_mem (example_world ''OR'')) (Ptr 0) = Some (example_genome ''OR'')"
    "Genes (example_genome ''OR'') \<noteq> []"
    "allocated (gene_mem (example_world ''OR'')) (Ptr 0)"
    "allocated (gene_mem (example_world ''OR'')) (Ptr 1)"
    by (simp_all add: example_defs allocated_def)
  have a: "\<forall>p\<in>set (Genes (example_genome ''OR'')). allocated (gene_mem (example_world ''OR'')) p"
    by (simp add: example_defs allocated_def)
  have m: "Mutate example_cs (Ptr 0) 3 (example_world ''OR'') =
     Return () ((example_world ''OR'')
       \<lparr>gene_mem := [(''a.b'', False), (''d.c'', False)], rng := 3,
        events := [GeneMutate 0, GeneMutate 1, GeneMutate 0]\<rparr>)"
    by (simp add: Mutate_def Mutate_loop.simps Intn_def call_gene_Mutate_def emit_def example_defs)
  have e: "events (example_world ''OR'') = []" by (simp add: example_defs)
  have z: "Mutate example_cs (Ptr 0) (- 2) (example_world ''OR'') = Return () (example_world ''OR'')"
    using Mutate_issues_k_gene_mutations [of "- 2" example_cs "Ptr 0" "example_world ''OR''"]
    by simp
  have k: "(1::int) \<le> 3" by simp
  have "\<exists>w' idxs. Mutate example_cs (Ptr 0) 3 (example_world ''OR'') = Return () w' \<and>
      events w' = events (example_world ''OR'') @ map GeneMutate idxs \<and> length idxs = nat 3 \<and>
      (\<forall>n\<in>set idxs. n < length (Genes (example_genome ''OR''))) \<and>
      genome_mem w' = genome_mem (example_world ''OR'') \<and>
      length (gene_mem w') = length (gene_mem (example_world ''OR''))"
    using Mutate_issues_k_gene_mutations
        [of 3 example_cs "Ptr 0" "example_world ''OR''" "example_genome ''OR''"] h(1,2) a k
    by blast
  then obtain w' idxs where
    "Mutate example_cs (Ptr 0) 3 (example_world ''OR'') = Return () w'"
    "events w' = events (example_world ''OR'') @ map GeneMutate idxs" "length idxs = nat 3"
    "genome_mem w' = genome_mem (example_world ''OR'')"
    by blast
  then have x: "\<exists>w' idxs. Mutate example_cs (Ptr 0) 3 (example_world ''OR'') = Return () w' \<and>
      events w' = map GeneMutate idxs \<and> length idxs = 3 \<and>
      genome_mem w' = genome_mem (example_world ''OR'')"
    unfolding e by (intro exI [of _ w'] exI [of _ idxs]) simp
  from z h m x show ?thesis by (intro conjI)
qed

subsection \<open>Dup\<close>

lemma store_load_id: "load h p = Some x \<Longrightarrow> store h p x = h"
  by (cases p) (auto split: if_splits)

lemma store_store [simp]: "store (store h p x) p y = store h p y"
  by (cases p) simp_all

lemma call_gene_Dup_Return:
  "load (gene_mem w) p = Some x \<Longrightarrow>
   call_gene_Dup cs p w =
     Return (Ptr (length (gene_mem w))) (w\<lparr>gene_mem := gene_mem w @ [gene_Dup cs x]\<rparr>)"
  by (simp add: call_gene_Dup_def alloc_def)

lemma map_load_append:
  "map (load h) ps = map Some xs \<Longrightarrow> map (load (h @ ys)) ps = map Some xs"
proof -
  assume a: "map (load h) ps = map Some xs"
  have "map (load (h @ ys)) ps = map (load h) ps"
    using map_load_allocated [OF a] by (simp add: load_append_old)
  with a show ?thesis by simp
qed

lemma Dup_loop_genes:
  "i < length gs \<Longrightarrow>
   take (Suc i) (gs[i := Ptr n]) @ map Ptr [Suc n..<Suc n + l] @ drop (Suc i + l) (gs[i := Ptr n]) =
   take i gs @ map Ptr [n..<n + Suc l] @ drop (i + Suc l) gs"
proof -
  assume i: "i < length gs"
  have 1: "take (Suc i) (gs[i := Ptr n]) = take i gs @ [Ptr n]"
    using i by (simp add: take_Suc_conv_app_nth)
  have 2: "[n..<n + Suc l] = n # [Suc n..<Suc n + l]"
    by (simp add: upt_conv_Cons)
  have 3: "drop (Suc i + l) (gs[i := Ptr n]) = drop (i + Suc l) gs"
    by simp
  show ?thesis
    unfolding 1 2 3 by simp
qed

lemma Dup_loop_copies:
  "map (load (gene_mem w)) ps = map Some xs \<Longrightarrow>
   load (genome_mem w) dst = Some D \<Longrightarrow>
   i + length ps \<le> length (Genes D) \<Longrightarrow>
   Dup_loop cs dst i ps w =
     Return ()
       (w\<lparr>gene_mem := gene_mem w @ map (gene_Dup cs) xs,
          genome_mem := store (genome_mem w) dst
            (D\<lparr>Genes := take i (Genes D) @
                 map Ptr [length (gene_mem w)..<length (gene_mem w) + length ps] @
                 drop (i + length ps) (Genes D)\<rparr>)\<rparr>)"
proof (induction ps arbitrary: xs i w D)
  case Nil
  then show ?case by (simp add: store_load_id)
next
  case (Cons p ps)
  from Cons.prems(1) obtain x xs' where xs: "xs = x # xs'" "load (gene_mem w) p = Some x"
    "map (load (gene_mem w)) ps = map Some xs'"
    by (cases xs) auto
  let ?n = "length (gene_mem w)"
  let ?w1 = "w\<lparr>gene_mem := gene_mem w @ [gene_Dup cs x]\<rparr>"
  let ?D' = "D\<lparr>Genes := (Genes D)[i := Ptr ?n]\<rparr>"
  let ?w2 = "update_genome dst (\<lambda>D. D\<lparr>Genes := (Genes D)[i := Ptr ?n]\<rparr>) ?w1"
  have c: "call_gene_Dup cs p w = Return (Ptr ?n) ?w1"
    by (rule call_gene_Dup_Return [OF xs(2)])
  have step: "Dup_loop cs dst i (p # ps) w = Dup_loop cs dst (Suc i) ps ?w2"
    using c by simp
  have w2: "?w2 = w\<lparr>gene_mem := gene_mem w @ [gene_Dup cs x],
                     genome_mem := store (genome_mem w) dst ?D'\<rparr>"
    using Cons.prems(2) by (simp add: update_genome_def)
  have a: "map (load (gene_mem ?w2)) ps = map Some xs'"
    using map_load_append [OF xs(3)] by simp
  have b: "load (genome_mem ?w2) dst = Some ?D'"
    unfolding w2 using Cons.prems(2) by (simp add: load_store_same load_Some_allocated)
  have l: "Suc i + length ps \<le> length (Genes ?D')" and i: "i < length (Genes D)"
    using Cons.prems(3) by simp_all
  have L: "take (Suc i) (Genes ?D') @
             map Ptr [length (gene_mem ?w2)..<length (gene_mem ?w2) + length ps] @
             drop (Suc i + length ps) (Genes ?D') =
           take i (Genes D) @ map Ptr [?n..<?n + length (p # ps)] @
             drop (i + length (p # ps)) (Genes D)"
  proof -
    have 1: "length (gene_mem ?w2) = Suc ?n" by simp
    have 2: "Genes ?D' = (Genes D)[i := Ptr ?n]" by simp
    show ?thesis
      unfolding 1 2 length_Cons by (rule Dup_loop_genes [OF i])
  qed
  have ih: "Dup_loop cs dst (Suc i) ps ?w2 =
     Return ()
       (?w2\<lparr>gene_mem := gene_mem ?w2 @ map (gene_Dup cs) xs',
          genome_mem := store (genome_mem ?w2) dst
            (?D'\<lparr>Genes := take (Suc i) (Genes ?D') @
                 map Ptr [length (gene_mem ?w2)..<length (gene_mem ?w2) + length ps] @
                 drop (Suc i + length ps) (Genes ?D')\<rparr>)\<rparr>)"
    by (rule Cons.IH [OF a b l])
  have "Dup_loop cs dst (Suc i) ps ?w2 =
     Return ()
       (w\<lparr>gene_mem := gene_mem w @ map (gene_Dup cs) xs,
          genome_mem := store (genome_mem w) dst
            (D\<lparr>Genes := take i (Genes D) @
                 map Ptr [?n..<?n + length (p # ps)] @
                 drop (i + length (p # ps)) (Genes D)\<rparr>)\<rparr>)"
    using ih unfolding L by (simp add: w2 xs(1))
  then show ?case unfolding step .
qed

lemma Dup_Return:
  assumes G: "load (genome_mem w) g = Some G"
    and xs: "map (load (gene_mem w)) (Genes G) = map Some xs"
  shows "Dup cs g w =
     Return (Ptr (length (genome_mem w)))
       (w\<lparr>gene_mem := gene_mem w @ map (gene_Dup cs) xs,
          genome_mem := genome_mem w @
            [\<lparr>Genes = map Ptr [length (gene_mem w)..<length (gene_mem w) + length xs],
              LinkFunc = LinkFunc G, Score = Score G, SymbolMap = None\<rparr>]\<rparr>)"
proof -
  from G have g: "g \<noteq> Nil" by auto
  have len: "length (Genes G) = length xs"
    using xs by (metis length_map)
  let ?D = "\<lparr>Genes = replicate (length (Genes G)) Nil, LinkFunc = LinkFunc G,
             Score = Score G, SymbolMap = None\<rparr>"
  let ?dst = "Ptr (length (genome_mem w))"
  let ?w0 = "w\<lparr>genome_mem := genome_mem w @ [?D]\<rparr>"
  have a: "map (load (gene_mem ?w0)) (Genes G) = map Some xs" using xs by simp
  have b: "load (genome_mem ?w0) ?dst = Some ?D" by simp
  have l: "0 + length (Genes G) \<le> length (Genes ?D)" by simp
  have "Dup_loop cs ?dst 0 (Genes G) ?w0 =
     Return ()
       (?w0\<lparr>gene_mem := gene_mem ?w0 @ map (gene_Dup cs) xs,
          genome_mem := store (genome_mem ?w0) ?dst
            (?D\<lparr>Genes := take 0 (Genes ?D) @
                 map Ptr [length (gene_mem ?w0)..<length (gene_mem ?w0) + length (Genes G)] @
                 drop (0 + length (Genes G)) (Genes ?D)\<rparr>)\<rparr>)"
    by (rule Dup_loop_copies [OF a b l])
  then show ?thesis
    using g G len by (simp add: Dup_def alloc_def)
qed


lemma Mutate_loop_touches_own_genes:
  "Mutate_loop cs d i k w = Return () w' \<Longrightarrow> load (genome_mem w) d = Some D \<Longrightarrow>
   genome_mem w' = genome_mem w \<and>
   (\<forall>q. q \<notin> set (Genes D) \<longrightarrow> load (gene_mem w') q = load (gene_mem w) q)"
proof (induction "nat (k - i)" arbitrary: i w)
  case 0
  then have "k \<le> i" by simp
  then have "Mutate_loop cs d i k w = Return () w" by (rule Mutate_loop_done)
  with 0 show ?case by simp
next
  case (Suc j)
  then have lt: "i < k" and j: "j = nat (k - (i + 1))" by linarith+
  have "Mutate_loop cs d i k w =
      (case Intn cs (int (length (Genes D))) w of
         Panic e w' \<Rightarrow> Panic e w'
       | Return n w1 \<Rightarrow>
           (case index (Genes D) n of
              None \<Rightarrow> Panic IndexOutOfRange w1
            | Some p \<Rightarrow>
                (case call_gene_Mutate cs n p w1 of
                   Panic e w' \<Rightarrow> Panic e w'
                 | Return u w2 \<Rightarrow> Mutate_loop cs d (i + 1) k w2)))"
    using lt Suc.prems(2) by (subst Mutate_loop.simps) simp
  with Suc.prems(1) obtain n w1 p u w2 where
    I: "Intn cs (int (length (Genes D))) w = Return n w1"
    and x: "index (Genes D) n = Some p"
    and c: "call_gene_Mutate cs n p w1 = Return u w2"
    and r: "Mutate_loop cs d (i + 1) k w2 = Return () w'"
    by (auto split: result.splits option.splits)
  from x have p: "p \<in> set (Genes D)" by (auto split: if_splits)
  note f1 = Intn_frame [OF I] and f2 = call_gene_Mutate_frame [OF c]
  have D2: "load (genome_mem w2) d = Some D" using Suc.prems(2) f1 f2 by simp
  from Suc.hyps(1) [OF j r D2] have
    "genome_mem w' = genome_mem w2"
    "\<forall>q. q \<notin> set (Genes D) \<longrightarrow> load (gene_mem w') q = load (gene_mem w2) q"
    by blast+
  with f1 f2 p show ?case by auto
qed

lemma load_fresh_genes:
  "map (load (h @ ys)) (map Ptr [length h..<length h + length ys]) = map Some ys"
  by (rule nth_equalityI) (simp_all add: nth_append)

lemma fresh_not_allocated:
  "q \<in> set (map Ptr [length h..<length h + m]) \<Longrightarrow> \<not> allocated h q"
  by (auto simp: allocated_def)

lemma distinct_fresh: "distinct (map Ptr [n..<n + m])"
  by (simp add: distinct_map inj_on_def)


text \<open>
  Claim C6. \<^verbatim>\<open>Dup\<close> on a nil genome writes a log line and returns nil. On a genome
  whose gene pointers are allocated it returns a pointer to a genome that did not exist
  before, with the link function and the score of the source and as many genes; the gene
  pointers of the duplicate are pairwise distinct addresses that were not allocated
  before, and the gene behind the i-th of them is \<^verbatim>\<open>gene.Dup\<close> of the i-th gene of the
  source; every gene and genome that existed keeps its state. If a copied gene renders as
  its original, the duplicate and the source have the same \<^verbatim>\<open>String\<close> right after the
  call. Whatever \<^verbatim>\<open>Mutate\<close> then does on the duplicate, the source genome, its genes and
  its \<^verbatim>\<open>String\<close> stay as they were.
\<close>

theorem Dup_is_an_independent_deep_copy:
  "Dup cs Nil w =
     Return Nil (w\<lparr>events := events w @
       [Log ''denome.Dup error: src and dst must be non-nil'']\<rparr>) \<and>
   (load (genome_mem w) g = Some G \<and> map (load (gene_mem w)) (Genes G) = map Some xs \<longrightarrow>
     (\<exists>d w' D.
        Dup cs g w = Return d w' \<and>
        \<not> allocated (genome_mem w) d \<and> load (genome_mem w') d = Some D \<and>
        LinkFunc D = LinkFunc G \<and> Score D = Score G \<and>
        length (Genes D) = length (Genes G) \<and> distinct (Genes D) \<and>
        (\<forall>q\<in>set (Genes D). \<not> allocated (gene_mem w) q) \<and>
        map (load (gene_mem w')) (Genes D) = map Some (map (gene_Dup cs) xs) \<and>
        (\<forall>p. allocated (gene_mem w) p \<longrightarrow> load (gene_mem w') p = load (gene_mem w) p) \<and>
        (\<forall>p. allocated (genome_mem w) p \<longrightarrow> load (genome_mem w') p = load (genome_mem w) p) \<and>
        (dup_keeps_String cs \<longrightarrow>
           (\<exists>s. String cs G w' = Return s w' \<and> String cs D w' = Return s w')) \<and>
        (\<forall>k w''. Mutate cs d k w' = Return () w'' \<longrightarrow>
           load (genome_mem w'') g = Some G \<and>
           map (load (gene_mem w'')) (Genes G) = map Some xs \<and>
           (\<exists>s. String cs G w' = Return s w' \<and> String cs G w'' = Return s w''))))"
proof (intro conjI impI)
  show "Dup cs Nil w =
     Return Nil (w\<lparr>events := events w @
       [Log ''denome.Dup error: src and dst must be non-nil'']\<rparr>)"
    by (simp add: Dup_def emit_def)
next
  assume h: "load (genome_mem w) g = Some G \<and> map (load (gene_mem w)) (Genes G) = map Some xs"
  then have G: "load (genome_mem w) g = Some G"
    and xs: "map (load (gene_mem w)) (Genes G) = map Some xs" by blast+
  have len: "length (Genes G) = length xs" using xs by (metis length_map)
  let ?n = "length (gene_mem w)"
  let ?ys = "map (gene_Dup cs) xs"
  let ?D = "\<lparr>Genes = map Ptr [?n..<?n + length xs],
             LinkFunc = LinkFunc G, Score = Score G, SymbolMap = None\<rparr>"
  let ?d = "Ptr (length (genome_mem w))"
  let ?w' = "w\<lparr>gene_mem := gene_mem w @ ?ys, genome_mem := genome_mem w @ [?D]\<rparr>"
  let ?sep = "''|'' @ LinkFunc G @ ''|''"
  let ?s = "Join (map (gene_String cs) xs) ?sep"
  have 1: "Dup cs g w = Return ?d ?w'" by (rule Dup_Return [OF G xs])
  have 2: "\<not> allocated (genome_mem w) ?d" by (simp add: allocated_def)
  have 3: "load (genome_mem ?w') ?d = Some ?D" by simp
  have 4: "LinkFunc ?D = LinkFunc G" "Score ?D = Score G" by simp_all
  have 5: "length (Genes ?D) = length (Genes G)" using len by simp
  have 6: "distinct (Genes ?D)" using distinct_fresh [of ?n "length xs"] by simp
  have 7: "\<forall>q\<in>set (Genes ?D). \<not> allocated (gene_mem w) q"
    using fresh_not_allocated [of _ "gene_mem w" "length xs"] by simp
  have 8: "map (load (gene_mem ?w')) (Genes ?D) = map Some ?ys"
    using load_fresh_genes [of "gene_mem w" ?ys] by simp
  have 9: "\<forall>p. allocated (gene_mem w) p \<longrightarrow> load (gene_mem ?w') p = load (gene_mem w) p"
    by (simp add: load_append_old)
  have 10: "\<forall>p. allocated (genome_mem w) p \<longrightarrow> load (genome_mem ?w') p = load (genome_mem w) p"
    by (simp add: load_append_old)
  have xs': "map (load (gene_mem ?w')) (Genes G) = map Some xs"
    using map_load_append [OF xs, of ?ys] by simp
  have sG: "String cs G ?w' = Return ?s ?w'" by (rule String_renders [OF xs'])
  have 11: "dup_keeps_String cs \<longrightarrow>
           (\<exists>s. String cs G ?w' = Return s ?w' \<and> String cs ?D ?w' = Return s ?w')"
  proof
    assume "dup_keeps_String cs"
    then have e: "map (gene_String cs) ?ys = map (gene_String cs) xs"
      by (simp add: dup_keeps_String_def)
    have "String cs ?D ?w' = Return (Join (map (gene_String cs) ?ys) (''|'' @ LinkFunc ?D @ ''|'')) ?w'"
      by (rule String_renders [OF 8])
    then have "String cs ?D ?w' = Return ?s ?w'" unfolding e by simp
    with sG show "\<exists>s. String cs G ?w' = Return s ?w' \<and> String cs ?D ?w' = Return s ?w'" by blast
  qed
  have 12: "\<forall>k w''. Mutate cs ?d k ?w' = Return () w'' \<longrightarrow>
           load (genome_mem w'') g = Some G \<and>
           map (load (gene_mem w'')) (Genes G) = map Some xs \<and>
           (\<exists>s. String cs G ?w' = Return s ?w' \<and> String cs G w'' = Return s w'')"
  proof (intro allI impI)
    fix k w'' assume m: "Mutate cs ?d k ?w' = Return () w''"
    then have "Mutate_loop cs ?d 0 k ?w' = Return () w''" by (simp add: Mutate_def)
    from Mutate_loop_touches_own_genes [OF this 3] have
      gm: "genome_mem w'' = genome_mem ?w'"
      and ge: "\<forall>q. q \<notin> set (Genes ?D) \<longrightarrow> load (gene_mem w'') q = load (gene_mem ?w') q"
      by blast+
    have a: "load (genome_mem w'') g = Some G"
      using gm G 10 load_Some_allocated [OF G] by simp
    have "map (load (gene_mem w'')) (Genes G) = map (load (gene_mem ?w')) (Genes G)"
    proof (rule map_cong [OF refl])
      fix p assume "p \<in> set (Genes G)"
      with map_load_allocated [OF xs] have "allocated (gene_mem w) p" by blast
      with 7 have "p \<notin> set (Genes ?D)" by blast
      with ge show "load (gene_mem w'') p = load (gene_mem ?w') p" by blast
    qed
    with xs' have b: "map (load (gene_mem w'')) (Genes G) = map Some xs" by simp
    have "String cs G w'' = Return ?s w''" by (rule String_renders [OF b])
    with sG a b show "load (genome_mem w'') g = Some G \<and>
           map (load (gene_mem w'')) (Genes G) = map Some xs \<and>
           (\<exists>s. String cs G ?w' = Return s ?w' \<and> String cs G w'' = Return s w'')" by blast
  qed
  show "\<exists>d w' D.
        Dup cs g w = Return d w' \<and>
        \<not> allocated (genome_mem w) d \<and> load (genome_mem w') d = Some D \<and>
        LinkFunc D = LinkFunc G \<and> Score D = Score G \<and>
        length (Genes D) = length (Genes G) \<and> distinct (Genes D) \<and>
        (\<forall>q\<in>set (Genes D). \<not> allocated (gene_mem w) q) \<and>
        map (load (gene_mem w')) (Genes D) = map Some (map (gene_Dup cs) xs) \<and>
        (\<forall>p. allocated (gene_mem w) p \<longrightarrow> load (gene_mem w') p = load (gene_mem w) p) \<and>
        (\<forall>p. allocated (genome_mem w) p \<longrightarrow> load (genome_mem w') p = load (genome_mem w) p) \<and>
        (dup_keeps_String cs \<longrightarrow>
           (\<exists>s. String cs G w' = Return s w' \<and> String cs D w' = Return s w')) \<and>
        (\<forall>k w''. Mutate cs d k w' = Return () w'' \<longrightarrow>
           load (genome_mem w'') g = Some G \<and>
           map (load (gene_mem w'')) (Genes G) = map Some xs \<and>
           (\<exists>s. String cs G w' = Return s w' \<and> String cs G w'' = Return s w''))"
    by (rule exI [of _ ?d], rule exI [of _ ?w'], rule exI [of _ ?D])
       (intro conjI 1 2 3 4 5 6 7 8 9 10 11 12)
qed


theorem Dup_is_an_independent_deep_copy_witness:
  "load (genome_mem (example_world ''OR'')) (Ptr 0) = Some (example_genome ''OR'') \<and>
   map (load (gene_mem (example_world ''OR''))) (Genes (example_genome ''OR'')) =
     map Some [(''a.b'', False), (''c.d'', False)] \<and>
   dup_keeps_String example_cs \<and>
   Dup example_cs (Ptr 0) (example_world ''OR'') =
     Return (Ptr 1)
       ((example_world ''OR'')
          \<lparr>gene_mem := [(''a.b'', False), (''c.d'', False), (''a.b'', False), (''c.d'', False)],
           genome_mem := [example_genome ''OR'',
             \<lparr>Genes = [Ptr 2, Ptr 3], LinkFunc = ''OR'', Score = 0, SymbolMap = None\<rparr>]\<rparr>) \<and>
   Mutate example_cs (Ptr 1) 1
       ((example_world ''OR'')
          \<lparr>gene_mem := [(''a.b'', False), (''c.d'', False), (''a.b'', False), (''c.d'', False)],
           genome_mem := [example_genome ''OR'',
             \<lparr>Genes = [Ptr 2, Ptr 3], LinkFunc = ''OR'', Score = 0, SymbolMap = None\<rparr>]\<rparr>) =
     Return ()
       ((example_world ''OR'')
          \<lparr>gene_mem := [(''a.b'', False), (''c.d'', False), (''b.a'', False), (''c.d'', False)],
           genome_mem := [example_genome ''OR'',
             \<lparr>Genes = [Ptr 2, Ptr 3], LinkFunc = ''OR'', Score = 0, SymbolMap = None\<rparr>],
           rng := 1, events := [GeneMutate 0]\<rparr>) \<and>
   String example_cs (example_genome ''OR'')
       ((example_world ''OR'')
          \<lparr>gene_mem := [(''a.b'', False), (''c.d'', False), (''b.a'', False), (''c.d'', False)],
           genome_mem := [example_genome ''OR'',
             \<lparr>Genes = [Ptr 2, Ptr 3], LinkFunc = ''OR'', Score = 0, SymbolMap = None\<rparr>],
           rng := 1, events := [GeneMutate 0]\<rparr>) =
     Return ''a.b|OR|c.d''
       ((example_world ''OR'')
          \<lparr>gene_mem := [(''a.b'', False), (''c.d'', False), (''b.a'', False), (''c.d'', False)],
           genome_mem := [example_genome ''OR'',
             \<lparr>Genes = [Ptr 2, Ptr 3], LinkFunc = ''OR'', Score = 0, SymbolMap = None\<rparr>],
           rng := 1, events := [GeneMutate 0]\<rparr>) \<and>
   Dup example_cs Nil (example_world ''OR'') =
     Return Nil ((example_world ''OR'')
       \<lparr>events := [Log ''denome.Dup error: src and dst must be non-nil'']\<rparr>)"
proof -
  let ?w = "example_world ''OR''"
  let ?G = "example_genome ''OR''"
  let ?D = "\<lparr>Genes = [Ptr 2, Ptr 3], LinkFunc = ''OR'', Score = 0::int, SymbolMap = None\<rparr>"
  let ?w' = "?w\<lparr>gene_mem := [(''a.b'', False), (''c.d'', False), (''a.b'', False), (''c.d'', False)],
           genome_mem := [?G, ?D]\<rparr>"
  let ?w'' = "?w\<lparr>gene_mem := [(''a.b'', False), (''c.d'', False), (''b.a'', False), (''c.d'', False)],
           genome_mem := [?G, ?D], rng := 1, events := [GeneMutate 0]\<rparr>"
  have h1: "load (genome_mem ?w) (Ptr 0) = Some ?G" by (simp add: example_defs)
  have h2: "map (load (gene_mem ?w)) (Genes ?G) = map Some [(''a.b'', False), (''c.d'', False)]"
    by (simp add: example_defs)
  have h3: "dup_keeps_String example_cs" by (simp add: dup_keeps_String_def example_cs_def)
  note T = Dup_is_an_independent_deep_copy
    [of example_cs ?w "Ptr 0" ?G "[(''a.b'', False), (''c.d'', False)]"]
  have n: "Dup example_cs Nil ?w =
     Return Nil (?w\<lparr>events := events ?w @
       [Log ''denome.Dup error: src and dst must be non-nil'']\<rparr>)"
    by (rule T [THEN conjunct1])
  have "\<exists>d w'. Dup example_cs (Ptr 0) ?w = Return d w' \<and>
        (\<forall>k w''. Mutate example_cs d k w' = Return () w'' \<longrightarrow>
           (\<exists>s. String example_cs ?G w' = Return s w' \<and> String example_cs ?G w'' = Return s w''))"
    using T [THEN conjunct2, THEN mp, OF conjI [OF h1 h2]]
    by (elim exE conjE) (intro exI conjI, assumption, blast)
  then obtain d w' where
    d: "Dup example_cs (Ptr 0) ?w = Return d w'"
    and i: "\<forall>k w''. Mutate example_cs d k w' = Return () w'' \<longrightarrow>
           (\<exists>s. String example_cs ?G w' = Return s w' \<and> String example_cs ?G w'' = Return s w'')"
    by blast
  have dup: "Dup example_cs (Ptr 0) ?w = Return (Ptr 1) ?w'"
    by (simp add: Dup_def alloc_def call_gene_Dup_def update_genome_def example_defs)
  have mut: "Mutate example_cs (Ptr 1) 1 ?w' = Return () ?w''"
    by (simp add: Mutate_def Mutate_loop.simps Intn_def call_gene_Mutate_def emit_def example_defs)
  have s': "String example_cs ?G ?w' = Return ''a.b|OR|c.d'' ?w'"
    by (simp add: String_def example_defs)
  from d dup have "d = Ptr 1" "w' = ?w'" by simp_all
  with i mut obtain s where "String example_cs ?G ?w' = Return s ?w'"
    "String example_cs ?G ?w'' = Return s ?w''" by blast
  with s' have s'': "String example_cs ?G ?w'' = Return ''a.b|OR|c.d'' ?w''" by simp
  have e: "events ?w = []" by (simp add: example_defs)
  from n have n': "Dup example_cs Nil ?w =
     Return Nil (?w\<lparr>events := [Log ''denome.Dup error: src and dst must be non-nil'']\<rparr>)"
    unfolding e by simp
  from h1 h2 h3 dup mut s'' n' show ?thesis by (intro conjI)
qed

text \<open>
  Claim C10. The genome \<^verbatim>\<open>Dup\<close> returns has a nil symbol map, whether or not the source
  has one. The first \<^verbatim>\<open>SymbolCount\<close> on the duplicate therefore computes its count from
  the duplicate's own genes: the link function's share plus the usage counts of the
  copied genes.
\<close>

theorem Dup_leaves_SymbolMap_unset:
  assumes "load (genome_mem w) g = Some G"
    and "map (load (gene_mem w)) (Genes G) = map Some xs"
  shows "\<exists>d w' D. Dup cs g w = Return d w' \<and> load (genome_mem w') d = Some D \<and>
           SymbolMap D = None \<and>
           (accounting_one_shot cs symb \<longrightarrow>
              (\<exists>w''. SymbolCount cs d symb w' =
                 Return ((if symb = LinkFunc G then of_nat (length (Genes G)) - 1 else 0) +
                         sum_list (map (\<lambda>x. gene_usage cs (gene_Dup cs x) symb) xs)) w''))"
proof -
  have len: "length (Genes G) = length xs" using assms(2) by (metis length_map)
  let ?n = "length (gene_mem w)"
  let ?ys = "map (gene_Dup cs) xs"
  let ?D = "\<lparr>Genes = map Ptr [?n..<?n + length xs],
             LinkFunc = LinkFunc G, Score = Score G, SymbolMap = None\<rparr>"
  let ?d = "Ptr (length (genome_mem w))"
  let ?w' = "w\<lparr>gene_mem := gene_mem w @ ?ys, genome_mem := genome_mem w @ [?D]\<rparr>"
  have 1: "Dup cs g w = Return ?d ?w'" by (rule Dup_Return [OF assms])
  have 2: "load (genome_mem ?w') ?d = Some ?D" by simp
  have 3: "SymbolMap ?D = None" by simp
  have ys: "map (load (gene_mem ?w')) (Genes ?D) = map Some ?ys"
    using load_fresh_genes [of "gene_mem w" ?ys] by simp
  have 4: "accounting_one_shot cs symb \<longrightarrow>
              (\<exists>w''. SymbolCount cs ?d symb ?w' =
                 Return ((if symb = LinkFunc G then of_nat (length (Genes G)) - 1 else 0) +
                         sum_list (map (\<lambda>x. gene_usage cs (gene_Dup cs x) symb) xs)) w'')"
  proof
    assume "accounting_one_shot cs symb"
    have e: "LinkFunc ?D = LinkFunc G" "length (Genes ?D) = length (Genes G)"
      "map (\<lambda>x. gene_usage cs x symb) ?ys = map (\<lambda>x. gene_usage cs (gene_Dup cs x) symb) xs"
      using len by (simp_all add: comp_def)
    from SymbolCount_first [OF 2 3 ys \<open>accounting_one_shot cs symb\<close>] show
      "\<exists>w''. SymbolCount cs ?d symb ?w' =
                 Return ((if symb = LinkFunc G then of_nat (length (Genes G)) - 1 else 0) +
                         sum_list (map (\<lambda>x. gene_usage cs (gene_Dup cs x) symb) xs)) w''"
      unfolding e .
  qed
  show ?thesis
    by (rule exI [of _ ?d], rule exI [of _ ?w'], rule exI [of _ ?D]) (intro conjI 1 2 3 4)
qed


theorem Dup_leaves_SymbolMap_unset_witness:
  "load (genome_mem ((example_world ''+'')
       \<lparr>genome_mem := [(example_genome ''+'')
          \<lparr>SymbolMap := Some [''+'' \<mapsto> 1, ''a.b'' \<mapsto> 1, ''c.d'' \<mapsto> 1]\<rparr>]\<rparr>)) (Ptr 0) =
     Some ((example_genome ''+'')
       \<lparr>SymbolMap := Some [''+'' \<mapsto> 1, ''a.b'' \<mapsto> 1, ''c.d'' \<mapsto> 1]\<rparr>) \<and>
   map (load (gene_mem ((example_world ''+'')
       \<lparr>genome_mem := [(example_genome ''+'')
          \<lparr>SymbolMap := Some [''+'' \<mapsto> 1, ''a.b'' \<mapsto> 1, ''c.d'' \<mapsto> 1]\<rparr>]\<rparr>)))
     (Genes ((example_genome ''+'')
       \<lparr>SymbolMap := Some [''+'' \<mapsto> 1, ''a.b'' \<mapsto> 1, ''c.d'' \<mapsto> 1]\<rparr>)) =
     map Some [(''a.b'', False), (''c.d'', False)] \<and>
   accounting_one_shot example_cs ''a.b'' \<and>
   (\<exists>d w' D. Dup example_cs (Ptr 0) ((example_world ''+'')
       \<lparr>genome_mem := [(example_genome ''+'')
          \<lparr>SymbolMap := Some [''+'' \<mapsto> 1, ''a.b'' \<mapsto> 1, ''c.d'' \<mapsto> 1]\<rparr>]\<rparr>) = Return d w' \<and>
      load (genome_mem w') d = Some D \<and> SymbolMap D = None \<and>
      (\<exists>w''. SymbolCount example_cs d ''a.b'' w' = Return 1 w''))"
proof -
  let ?G = "(example_genome ''+'')
       \<lparr>SymbolMap := Some [''+'' \<mapsto> 1, ''a.b'' \<mapsto> 1, ''c.d'' \<mapsto> 1]\<rparr>"
  let ?w = "(example_world ''+'')\<lparr>genome_mem := [?G]\<rparr>"
  have h1: "load (genome_mem ?w) (Ptr 0) = Some ?G" by simp
  have h2: "map (load (gene_mem ?w)) (Genes ?G) = map Some [(''a.b'', False), (''c.d'', False)]"
    by (simp add: example_defs)
  have h3: "accounting_one_shot example_cs ''a.b''"
    by (simp add: accounting_one_shot_def forced_def example_cs_def)
  have u: "(if ''a.b'' = LinkFunc ?G then of_nat (length (Genes ?G)) - 1 else 0) +
           sum_list (map (\<lambda>x. gene_usage example_cs (gene_Dup example_cs x) ''a.b'')
             [(''a.b'', False), (''c.d'', False)]) = 1"
    by (simp add: gene_usage_def forced_def lookup_map_def lookup_def example_defs)
  from Dup_leaves_SymbolMap_unset [OF h1 h2, of example_cs "''a.b''"] obtain d w' D where
    "Dup example_cs (Ptr 0) ?w = Return d w'" "load (genome_mem w') d = Some D" "SymbolMap D = None"
    "accounting_one_shot example_cs ''a.b'' \<longrightarrow>
       (\<exists>w''. SymbolCount example_cs d ''a.b'' w' =
          Return ((if ''a.b'' = LinkFunc ?G then of_nat (length (Genes ?G)) - 1 else 0) +
                  sum_list (map (\<lambda>x. gene_usage example_cs (gene_Dup example_cs x) ''a.b'')
                    [(''a.b'', False), (''c.d'', False)])) w'')"
    by blast
  with h3 have "\<exists>d w' D. Dup example_cs (Ptr 0) ?w = Return d w' \<and>
      load (genome_mem w') d = Some D \<and> SymbolMap D = None \<and>
      (\<exists>w''. SymbolCount example_cs d ''a.b'' w' = Return 1 w'')"
    unfolding u by blast
  with h1 h2 h3 show ?thesis by (intro conjI)
qed

end
